theory Spec2Isabelle
  imports Main
begin

section \<open>The content scheduler: next-run calculation, poller and run executor\<close>

text \<open>
  The scheduler lives in the \<open>ContentScheduler\<close> component. Its three parts are
  \<open>calculateNextRun\<close> (the next-run calculator), \<open>checkSchedules\<close> (the poller
  tick) and \<open>generateScheduledContent\<close> (the run executor). They are embedded here
  as pure functions: the clock reading, the time zone offset and the answers of the
  two server actions are parameters, and every state update is a function on the list
  of schedules.
\<close>

subsection \<open>Numbers and strings of the host language\<close>

text \<open>
  A Number is \<open>NaN\<close> or an integer. Every Number the scheduler computes with is a time
  value, a calendar field or a small day count: integers of magnitude below \<open>2^53\<close>,
  on which double arithmetic is exact.
\<close>

datatype number = NaN | Val int

fun num_add :: "number \<Rightarrow> number \<Rightarrow> number" where
  "num_add (Val a) (Val b) = Val (a + b)"
| "num_add _ _ = NaN"

fun num_sub :: "number \<Rightarrow> number \<Rightarrow> number" where
  "num_sub (Val a) (Val b) = Val (a - b)"
| "num_sub _ _ = NaN"

text \<open>
  The remainder operator \<open>%\<close> truncates towards zero: the result has the sign of the
  dividend; a zero divisor gives \<open>NaN\<close>.
\<close>

fun num_rem :: "number \<Rightarrow> number \<Rightarrow> number" where
  "num_rem (Val a) (Val b) =
     (if b = 0 then NaN else Val (sgn a * (\<bar>a\<bar> mod \<bar>b\<bar>)))"
| "num_rem _ _ = NaN"

text \<open>\<open>a <= b\<close> and \<open>a === b\<close> on Numbers: every comparison with \<open>NaN\<close> is false.\<close>

fun num_le :: "number \<Rightarrow> number \<Rightarrow> bool" where
  "num_le (Val a) (Val b) = (a \<le> b)"
| "num_le _ _ = False"

fun num_eq :: "number \<Rightarrow> number \<Rightarrow> bool" where
  "num_eq (Val a) (Val b) = (a = b)"
| "num_eq _ _ = False"

text \<open>
  \<open>s.split(":")\<close>: the fields between the colons; a string without a colon (also the
  empty one) is a single field.
\<close>

fun split_colon :: "string \<Rightarrow> string list" where
  "split_colon [] = [[]]"
| "split_colon (c # cs) =
     (if c = CHR '':'' then [] # split_colon cs
      else (case split_colon cs of
              [] \<Rightarrow> [[c]]
            | f # fs \<Rightarrow> (c # f) # fs))"

definition is_digit :: "char \<Rightarrow> bool" where
  "is_digit c = (let n = (of_char c :: nat) in 48 \<le> n \<and> n \<le> 57)"

definition digit_value :: "char \<Rightarrow> int" where
  "digit_value c = int (of_char c) - 48"

text \<open>
  \<open>Number(s)\<close> on the strings that are sequences of decimal digits: the empty string
  is \<open>0\<close>, digits are read in base ten. Every string with another character is read
  as \<open>NaN\<close> here. The host language also accepts surrounding white space, a sign, a
  fraction, an exponent, radix prefixes and \<open>Infinity\<close>; these forms are outside this
  model, and no statement below depends on the value at such a string.
\<close>

definition Number_of :: "string \<Rightarrow> number" where
  "Number_of s =
     (if list_all is_digit s then Val (foldl (\<lambda>a c. 10 * a + digit_value c) 0 s)
      else NaN)"

text \<open>
  Array destructuring \<open>[hours, minutes] = fields\<close>: a missing element is
  \<open>undefined\<close>, which \<open>setHours\<close> converts to \<open>NaN\<close>.
\<close>

fun element_or_NaN :: "number list \<Rightarrow> nat \<Rightarrow> number" where
  "element_or_NaN [] _ = NaN"
| "element_or_NaN (x # xs) 0 = x"
| "element_or_NaN (x # xs) (Suc i) = element_or_NaN xs i"

text \<open>\<open>toLowerCase\<close> on ASCII letters; every other byte is kept.\<close>

definition lower_char :: "char \<Rightarrow> char" where
  "lower_char c =
     (let n = (of_char c :: nat) in if 65 \<le> n \<and> n \<le> 90 then char_of (n + 32) else c)"

definition toLowerCase :: "string \<Rightarrow> string" where
  "toLowerCase s = map lower_char s"

text \<open>\<open>xs.indexOf(x)\<close>: the first index of \<open>x\<close>, or \<open>-1\<close>.\<close>

fun indexOf :: "'a list \<Rightarrow> 'a \<Rightarrow> int" where
  "indexOf [] x = -1"
| "indexOf (y # ys) x =
     (if y = x then 0 else (let i = indexOf ys x in if i = -1 then -1 else i + 1))"

text \<open>\<open>s.includes(p)\<close>: \<open>p\<close> occurs in \<open>s\<close> as a contiguous substring.\<close>

fun starts_with :: "string \<Rightarrow> string \<Rightarrow> bool" where
  "starts_with s [] = True"
| "starts_with [] (p # ps) = False"
| "starts_with (c # cs) (p # ps) = (c = p \<and> starts_with cs ps)"

fun str_includes :: "string \<Rightarrow> string \<Rightarrow> bool" where
  "str_includes [] p = (p = [])"
| "str_includes (c # cs) p = (starts_with (c # cs) p \<or> str_includes cs p)"

text \<open>\<open>s.replace(p, r)\<close> with a string pattern: the first occurrence only.\<close>

fun replace_first :: "string \<Rightarrow> string \<Rightarrow> string \<Rightarrow> string" where
  "replace_first [] p r = (if p = [] then r else [])"
| "replace_first (c # cs) p r =
     (if starts_with (c # cs) p then r @ drop (length p) (c # cs)
      else c # replace_first cs p r)"

subsection \<open>Time values and the calendar\<close>

text \<open>
  The date arithmetic of the language standard, on integer time values (milliseconds
  since the epoch). The local time zone has a constant offset \<open>tza\<close> from UTC, in
  milliseconds: \<open>LocalTime t = t + tza\<close>. Zones whose offset changes during the year
  are outside the model.
\<close>

definition msPerDay :: int where "msPerDay = 86400000"
definition msPerHour :: int where "msPerHour = 3600000"
definition msPerMinute :: int where "msPerMinute = 60000"
definition msPerSecond :: int where "msPerSecond = 1000"

definition Day :: "int \<Rightarrow> int" where
  "Day t = t div msPerDay"

definition TimeWithinDay :: "int \<Rightarrow> int" where
  "TimeWithinDay t = t mod msPerDay"

definition DaysInYear :: "int \<Rightarrow> int" where
  "DaysInYear y =
     (if y mod 4 \<noteq> 0 then 365
      else if y mod 100 \<noteq> 0 then 366
      else if y mod 400 \<noteq> 0 then 365
      else 366)"

definition DayFromYear :: "int \<Rightarrow> int" where
  "DayFromYear y =
     365 * (y - 1970) + (y - 1969) div 4 - (y - 1901) div 100 + (y - 1601) div 400"

text \<open>
  \<open>YearFromTime t\<close> is the largest year whose first day is not after \<open>t\<close>. It is
  computed from an estimate with the mean year length (146097 days in 400 years),
  which is off by at most one year, and one correction step.
\<close>

definition YearFromDay :: "int \<Rightarrow> int" where
  "YearFromDay d =
     (let y = 1970 + (400 * d) div 146097
      in if DayFromYear (y + 1) \<le> d then y + 1
         else if d < DayFromYear y then y - 1
         else y)"

definition YearFromTime :: "int \<Rightarrow> int" where
  "YearFromTime t = YearFromDay (Day t)"

definition InLeapYear :: "int \<Rightarrow> int" where
  "InLeapYear t = (if DaysInYear (YearFromTime t) = 366 then 1 else 0)"

definition DayWithinYear :: "int \<Rightarrow> int" where
  "DayWithinYear t = Day t - DayFromYear (YearFromTime t)"

text \<open>
  The number of days of the year before month \<open>m\<close> (\<open>0\<close> is January), for a common
  year (\<open>leap = 0\<close>) or a leap year (\<open>leap = 1\<close>).
\<close>

definition DaysBeforeMonth :: "int \<Rightarrow> int \<Rightarrow> int" where
  "DaysBeforeMonth m leap =
     (if m = 0 then 0
      else if m = 1 then 31
      else if m = 2 then 59 + leap
      else if m = 3 then 90 + leap
      else if m = 4 then 120 + leap
      else if m = 5 then 151 + leap
      else if m = 6 then 181 + leap
      else if m = 7 then 212 + leap
      else if m = 8 then 243 + leap
      else if m = 9 then 273 + leap
      else if m = 10 then 304 + leap
      else 334 + leap)"

definition MonthFromTime :: "int \<Rightarrow> int" where
  "MonthFromTime t =
     (let d = DayWithinYear t; leap = InLeapYear t
      in if d < 31 then 0
         else if d < 59 + leap then 1
         else if d < 90 + leap then 2
         else if d < 120 + leap then 3
         else if d < 151 + leap then 4
         else if d < 181 + leap then 5
         else if d < 212 + leap then 6
         else if d < 243 + leap then 7
         else if d < 273 + leap then 8
         else if d < 304 + leap then 9
         else if d < 334 + leap then 10
         else 11)"

definition DateFromTime :: "int \<Rightarrow> int" where
  "DateFromTime t =
     DayWithinYear t - DaysBeforeMonth (MonthFromTime t) (InLeapYear t) + 1"

definition WeekDay :: "int \<Rightarrow> int" where
  "WeekDay t = (Day t + 4) mod 7"

definition MakeTime :: "int \<Rightarrow> int \<Rightarrow> int \<Rightarrow> int \<Rightarrow> int" where
  "MakeTime hour minute sec ms =
     hour * msPerHour + minute * msPerMinute + sec * msPerSecond + ms"

text \<open>
  \<open>MakeDay year month date\<close>: the day number of the first of the month, the month
  index carried into the year, plus \<open>date - 1\<close>; a date outside the month runs over
  into the neighbouring months.
\<close>

definition MakeDay :: "int \<Rightarrow> int \<Rightarrow> int \<Rightarrow> int" where
  "MakeDay year month date =
     (let ym = year + month div 12;
          mn = month mod 12
      in DayFromYear ym + DaysBeforeMonth mn (if DaysInYear ym = 366 then 1 else 0)
           + date - 1)"

definition MakeDate :: "int \<Rightarrow> int \<Rightarrow> int" where
  "MakeDate day time = day * msPerDay + time"

text \<open>A time value beyond 100 million days from the epoch is not a date.\<close>

definition TimeClip :: "int \<Rightarrow> number" where
  "TimeClip t = (if \<bar>t\<bar> \<le> 8640000000000000 then Val t else NaN)"

definition LocalTime :: "int \<Rightarrow> int \<Rightarrow> int" where
  "LocalTime tza t = t + tza"

definition UTC :: "int \<Rightarrow> int \<Rightarrow> int" where
  "UTC tza t = t - tza"

subsection \<open>Date objects\<close>

text \<open>
  A Date object is its time value, a Number; a setter returns the new time value.
  All getters and setters work in local time.
\<close>

fun getDate :: "int \<Rightarrow> number \<Rightarrow> number" where
  "getDate tza NaN = NaN"
| "getDate tza (Val t) = Val (DateFromTime (LocalTime tza t))"

fun getDay :: "int \<Rightarrow> number \<Rightarrow> number" where
  "getDay tza NaN = NaN"
| "getDay tza (Val t) = Val (WeekDay (LocalTime tza t))"

fun getMonth :: "int \<Rightarrow> number \<Rightarrow> number" where
  "getMonth tza NaN = NaN"
| "getMonth tza (Val t) = Val (MonthFromTime (LocalTime tza t))"

fun setHours :: "int \<Rightarrow> number \<Rightarrow> number \<Rightarrow> number \<Rightarrow> number \<Rightarrow> number \<Rightarrow> number" where
  "setHours tza (Val t) (Val h) (Val m) (Val s) (Val ms) =
     TimeClip (UTC tza (MakeDate (Day (LocalTime tza t)) (MakeTime h m s ms)))"
| "setHours tza _ _ _ _ _ = NaN"

fun setDate :: "int \<Rightarrow> number \<Rightarrow> number \<Rightarrow> number" where
  "setDate tza (Val t) (Val dt) =
     (let lt = LocalTime tza t
      in TimeClip (UTC tza (MakeDate (MakeDay (YearFromTime lt) (MonthFromTime lt) dt)
                                       (TimeWithinDay lt))))"
| "setDate tza _ _ = NaN"

fun setMonth :: "int \<Rightarrow> number \<Rightarrow> number \<Rightarrow> number" where
  "setMonth tza (Val t) (Val m) =
     (let lt = LocalTime tza t
      in TimeClip (UTC tza (MakeDate (MakeDay (YearFromTime lt) m (DateFromTime lt))
                                       (TimeWithinDay lt))))"
| "setMonth tza _ _ = NaN"

text \<open>
  \<open>toISOString\<close> raises a \<open>RangeError\<close> on an invalid date. Otherwise it prints the
  instant in UTC; the string is represented by the time value it denotes.
\<close>

datatype error = RangeError

fun toISOString :: "number \<Rightarrow> error + int" where
  "toISOString NaN = Inl RangeError"
| "toISOString (Val t) = Inr t"

subsection \<open>The next-run calculator\<close>

definition days :: "string list" where
  "days = [''sunday'', ''monday'', ''tuesday'', ''wednesday'', ''thursday'', ''friday'',
           ''saturday'']"

text \<open>An optional string is truthy when it is present and not empty.\<close>

fun truthy :: "string option \<Rightarrow> bool" where
  "truthy None = False"
| "truthy (Some s) = (s \<noteq> [])"

text \<open>
  The \<open>weekly\<close> and \<open>biweekly\<close> cases of the switch. They differ only in the days
  added: \<open>daysToAdd === 0 ? 7 : daysToAdd\<close> for weekly,
  \<open>daysToAdd === 0 ? 14 : daysToAdd + 7\<close> for biweekly.
\<close>

definition weekly_case :: "int \<Rightarrow> number \<Rightarrow> string option \<Rightarrow> number" where
  "weekly_case tza nextRun dayOfWeek =
     (if truthy dayOfWeek then
        (let targetDay = indexOf days (toLowerCase (the dayOfWeek))
         in if targetDay \<noteq> -1 then
              (let currentDay = getDay tza nextRun;
                   daysToAdd = num_rem (num_sub (Val (targetDay + 7)) currentDay) (Val 7)
               in setDate tza nextRun
                    (num_add (getDate tza nextRun)
                       (if num_eq daysToAdd (Val 0) then Val 7 else daysToAdd)))
            else nextRun)
      else nextRun)"

definition biweekly_case :: "int \<Rightarrow> number \<Rightarrow> string option \<Rightarrow> number" where
  "biweekly_case tza nextRun dayOfWeek =
     (if truthy dayOfWeek then
        (let targetDay = indexOf days (toLowerCase (the dayOfWeek))
         in if targetDay \<noteq> -1 then
              (let currentDay = getDay tza nextRun;
                   daysToAdd = num_rem (num_sub (Val (targetDay + 7)) currentDay) (Val 7)
               in setDate tza nextRun
                    (num_add (getDate tza nextRun)
                       (if num_eq daysToAdd (Val 0) then Val 14
                        else num_add daysToAdd (Val 7))))
            else nextRun)
      else nextRun)"

text \<open>
  The candidate: the clock reading, with the hours and minutes of \<open>time\<close> when a time
  is given (\<open>setHours(hours, minutes, 0, 0)\<close>).
\<close>

definition candidate :: "int \<Rightarrow> int \<Rightarrow> string option \<Rightarrow> number" where
  "candidate tza clock time =
     (if truthy time then
        (let fields = map Number_of (split_colon (the time));
             hours = element_or_NaN fields 0;
             minutes = element_or_NaN fields 1
         in setHours tza (Val clock) hours minutes (Val 0) (Val 0))
      else Val clock)"

text \<open>
  \<open>calculateNextRun tza clock frequency dayOfWeek time\<close>: \<open>clock\<close> is the reading of
  \<open>new Date()\<close>; the two readings at the start of the function are taken as the same
  instant. The switch has no default case.
\<close>

definition calculateNextRun ::
  "int \<Rightarrow> int \<Rightarrow> string \<Rightarrow> string option \<Rightarrow> string option \<Rightarrow> error + int" where
  "calculateNextRun tza clock frequency dayOfWeek time =
     (let now = Val clock;
          nextRun = candidate tza clock time
      in toISOString
           (if num_le nextRun now then
              (if frequency = ''daily'' then
                 setDate tza nextRun (num_add (getDate tza nextRun) (Val 1))
               else
                 (let nextRun = setDate tza nextRun (num_add (getDate tza nextRun) (Val 1))
                  in if frequency = ''weekly'' then weekly_case tza nextRun dayOfWeek
                     else if frequency = ''biweekly'' then biweekly_case tza nextRun dayOfWeek
                     else if frequency = ''monthly'' then
                       setMonth tza nextRun (num_add (getMonth tza nextRun) (Val 1))
                     else nextRun))
            else nextRun))"

text \<open>
  Vocabulary for the statements below. \<open>local_instant\<close> is the time value of
  \<open>new Date(year, month, date, hours, minutes)\<close>. A time of day is a string whose two
  fields are digit strings below 24 and 60, as the time input of the form produces;
  \<open>today_at\<close> is that time of day on the local calendar day of the clock reading.
\<close>

definition local_instant :: "int \<Rightarrow> int \<Rightarrow> int \<Rightarrow> int \<Rightarrow> int \<Rightarrow> int \<Rightarrow> int" where
  "local_instant tza year month dt hours minutes =
     UTC tza (MakeDate (MakeDay year month dt) (MakeTime hours minutes 0 0))"

fun hours_minutes :: "number list \<Rightarrow> (int \<times> int) option" where
  "hours_minutes [Val h, Val m] = Some (h, m)"
| "hours_minutes _ = None"

definition is_time_of_day :: "string \<Rightarrow> bool" where
  "is_time_of_day s =
     (case hours_minutes (map Number_of (split_colon s)) of
        Some (h, m) \<Rightarrow> h < 24 \<and> m < 60
      | None \<Rightarrow> False)"

definition time_of_day_ms :: "string \<Rightarrow> int" where
  "time_of_day_ms s =
     (case hours_minutes (map Number_of (split_colon s)) of
        Some (h, m) \<Rightarrow> MakeTime h m 0 0
      | None \<Rightarrow> 0)"

definition today_at :: "int \<Rightarrow> int \<Rightarrow> string \<Rightarrow> int" where
  "today_at tza clock s =
     UTC tza (MakeDate (Day (LocalTime tza clock)) (time_of_day_ms s))"

text \<open>
  A clock reading and a zone offset that keep every date of the calculation inside the
  range of \<open>TimeClip\<close>: the reading is at most \<open>8 * 10^15\<close> ms from the epoch (the
  range ends at \<open>8.64 * 10^15\<close>), the offset at most a day.
\<close>

definition normal_clock :: "int \<Rightarrow> int \<Rightarrow> bool" where
  "normal_clock tza clock =
     (\<bar>clock\<bar> \<le> 8000000000000000 \<and> \<bar>tza\<bar> \<le> msPerDay)"

subsection \<open>Schedules\<close>

datatype status = Scheduled | Completed | Failed | InProgress

text \<open>
  The type \<open>ScheduledPost\<close>. An optional field is an option. \<open>lastRun\<close> and \<open>nextRun\<close>
  hold strings written by \<open>toISOString\<close>; such a string is represented by the instant
  it denotes, which \<open>new Date(string)\<close> reads back. The field \<open>id\<close> is \<open>id_post\<close>.
\<close>

record ScheduledPost =
  id_post :: string
  date :: string
  time :: string
  topic :: string
  status :: status
  frequency :: "string option"
  dayOfWeek :: "string option"
  contentType :: "string option"
  wordCount :: "int option"
  tone :: "string option"
  audience :: "string option"
  autoPublish :: "bool option"
  lastRun :: "int option"
  nextRun :: "int option"
  result :: "string option"

subsection \<open>The poller tick\<close>

text \<open>
  The loop of \<open>checkSchedules\<close>, from index \<open>i\<close>. Its state is the copy
  \<open>updatedSchedules\<close>, the flag \<open>hasChanges\<close> and the schedules handed to
  \<open>generateScheduledContent\<close> so far, in order. A schedule that is not in status
  \<open>scheduled\<close>, has no \<open>nextRun\<close>, or is not yet due is skipped.
\<close>

function check_loop ::
  "int \<Rightarrow> nat \<Rightarrow> ScheduledPost list \<times> bool \<times> ScheduledPost list
     \<Rightarrow> ScheduledPost list \<times> bool \<times> ScheduledPost list" where
  "check_loop now i (updatedSchedules, hasChanges, dispatched) =
     (if i < length updatedSchedules then
        (let schedule = updatedSchedules ! i
         in if status schedule \<noteq> Scheduled then
              check_loop now (i + 1) (updatedSchedules, hasChanges, dispatched)
            else
              (case nextRun schedule of
                 None \<Rightarrow> check_loop now (i + 1) (updatedSchedules, hasChanges, dispatched)
               | Some next_run \<Rightarrow>
                   if next_run \<le> now then
                     check_loop now (i + 1)
                       (updatedSchedules
                          [i := schedule\<lparr>status := InProgress, lastRun := Some now\<rparr>],
                        True, dispatched @ [schedule])
                   else check_loop now (i + 1) (updatedSchedules, hasChanges, dispatched)))
      else (updatedSchedules, hasChanges, dispatched))"
  by pat_completeness auto
termination
  by (relation "measure (\<lambda>(now, i, updatedSchedules, hasChanges, dispatched).
                            length updatedSchedules - i)") auto

declare check_loop.simps [simp del]

text \<open>
  \<open>checkSchedules now schedules\<close>: the list of schedules after the tick (set only when
  something changed) and the runs that were started. \<open>now\<close> is the clock reading; the
  reading taken for \<open>lastRun\<close> is the same instant. Each started run queues its first
  update before the loop ends; \<open>setSchedules(updatedSchedules)\<close> comes after it in
  the queue and replaces the list, so the list after the tick is \<open>updatedSchedules\<close>.
\<close>

definition checkSchedules :: "int \<Rightarrow> ScheduledPost list \<Rightarrow> ScheduledPost list \<times> ScheduledPost list" where
  "checkSchedules now schedules =
     (case check_loop now 0 (schedules, False, []) of
        (updatedSchedules, hasChanges, dispatched) \<Rightarrow>
          (if hasChanges then updatedSchedules else schedules, dispatched))"

text \<open>A schedule is due: it is in status \<open>scheduled\<close> and its \<open>nextRun\<close> is set and not after \<open>now\<close>.\<close>

definition is_due :: "int \<Rightarrow> ScheduledPost \<Rightarrow> bool" where
  "is_due now s =
     (status s = Scheduled \<and> (case nextRun s of None \<Rightarrow> False | Some t \<Rightarrow> t \<le> now))"

subsection \<open>The run executor\<close>

text \<open>
  The two server actions are parameters. \<open>generateContentAction\<close> returns the content
  and the suggested categories or throws; \<open>publishPostAction\<close> returns an object with
  \<open>success\<close> and an optional \<open>error\<close>, or throws. A thrown value is an \<open>Error\<close> with
  its message, or something that is not an \<open>Error\<close>.
\<close>

datatype thrown = Error string | NotAnError

type_synonym category = "string \<times> string option"

datatype generation = Generated string "category list" | GenerationThrows thrown

datatype publishing = Returned bool "string option" | PublishThrows thrown

text \<open>The parameters of the generation call; the source passes them as a JSON string.\<close>

record content_params =
  p_contentType :: string
  p_wordCount :: int
  p_tone :: string
  p_audience :: string
  p_includeImages :: bool
  p_includeFaqs :: bool

text \<open>
  The state updates of the executor. Each is a function on the previous list of
  schedules that changes the schedules with the id of the run, and carries the
  arguments of the run that its closure uses:
  \<^item> \<open>Generating\<close>: status \<open>in-progress\<close>, result \<open>Generating content...\<close>;
  \<^item> \<open>CompletedRun\<close>: status \<open>completed\<close>, \<open>lastRun\<close> the clock reading, \<open>nextRun\<close>
    from \<open>calculateNextRun\<close> on the frequency, day and time of the run, and the given
    result;
  \<^item> \<open>FailedRun\<close>: status \<open>failed\<close> and the given result;
  \<^item> \<open>BackToScheduled\<close>: status \<open>scheduled\<close>.
  An effect is an update made at once, or one made by \<open>setTimeout\<close> after a delay in
  milliseconds. Toasts and console output are left out.
\<close>

datatype update =
    Generating string
  | CompletedRun string string string string string
  | FailedRun string string
  | BackToScheduled string

datatype effect = Now update | After nat update

text \<open>
  \<open>prev.map(...)\<close> for \<open>CompletedRun\<close>: \<open>calculateNextRun\<close> is called for each schedule
  with the id, and its \<open>RangeError\<close> leaves the updater.
\<close>

fun complete_all ::
  "int \<Rightarrow> int \<Rightarrow> string \<Rightarrow> string \<Rightarrow> string \<Rightarrow> string \<Rightarrow> string
     \<Rightarrow> ScheduledPost list \<Rightarrow> error + ScheduledPost list" where
  "complete_all tza clock scheduleId freq dow tm r [] = Inr []"
| "complete_all tza clock scheduleId freq dow tm r (s # prev) =
     (if id_post s = scheduleId then
        (case calculateNextRun tza clock freq (Some dow) (Some tm) of
           Inl e \<Rightarrow> Inl e
         | Inr next_run \<Rightarrow>
             (case complete_all tza clock scheduleId freq dow tm r prev of
                Inl e \<Rightarrow> Inl e
              | Inr updated \<Rightarrow>
                  Inr (s\<lparr>status := Completed, lastRun := Some clock,
                          nextRun := Some next_run, result := Some r\<rparr> # updated)))
      else
        (case complete_all tza clock scheduleId freq dow tm r prev of
           Inl e \<Rightarrow> Inl e
         | Inr updated \<Rightarrow> Inr (s # updated)))"

text \<open>\<open>clock\<close> is the reading of \<open>new Date()\<close> when the update is made.\<close>

fun apply_update ::
  "int \<Rightarrow> int \<Rightarrow> update \<Rightarrow> ScheduledPost list \<Rightarrow> error + ScheduledPost list" where
  "apply_update tza clock (Generating scheduleId) prev =
     Inr (map (\<lambda>s. if id_post s = scheduleId
                    then s\<lparr>status := InProgress, result := Some ''Generating content...''\<rparr>
                    else s) prev)"
| "apply_update tza clock (CompletedRun scheduleId freq dow tm r) prev =
     complete_all tza clock scheduleId freq dow tm r prev"
| "apply_update tza clock (FailedRun scheduleId r) prev =
     Inr (map (\<lambda>s. if id_post s = scheduleId
                    then s\<lparr>status := Failed, result := Some r\<rparr>
                    else s) prev)"
| "apply_update tza clock (BackToScheduled scheduleId) prev =
     Inr (map (\<lambda>s. if id_post s = scheduleId then s\<lparr>status := Scheduled\<rparr> else s) prev)"

text \<open>
  The \<open>try\<close> block up to the first state update after the two calls: the value that
  reaches the \<open>catch\<close> block, or \<open>None\<close> when generation and publishing succeed. A
  result of \<open>publishPostAction\<close> without \<open>success\<close> is thrown as an \<open>Error\<close> with
  \<open>result.error || "Failed to publish post"\<close>.
\<close>

definition try_block ::
  "(string \<Rightarrow> content_params \<Rightarrow> string \<Rightarrow> generation)
     \<Rightarrow> (string \<Rightarrow> string \<Rightarrow> string \<Rightarrow> category list \<Rightarrow> publishing)
     \<Rightarrow> string \<Rightarrow> bool \<Rightarrow> string \<Rightarrow> int \<Rightarrow> string \<Rightarrow> string \<Rightarrow> thrown option" where
  "try_block generateContentAction publishPostAction tp auto_publish
       content_type word_count tn aud =
     (let keywords = replace_first tp ''Content about '' [];
          params = \<lparr>p_contentType = content_type, p_wordCount = word_count, p_tone = tn,
                     p_audience = aud, p_includeImages = False, p_includeFaqs = True\<rparr>
      in case generateContentAction (''Auto-generated: '' @ keywords) params keywords of
           GenerationThrows x \<Rightarrow> Some x
         | Generated content suggestedCategories \<Rightarrow>
             (let publish_status = (if auto_publish then ''publish'' else ''draft'') in
              case publishPostAction (''Auto-generated: '' @ keywords) content publish_status
                     suggestedCategories of
                PublishThrows x \<Rightarrow> Some x
              | Returned success err \<Rightarrow>
                  if \<not> success then
                    Some (Error (if truthy err then the err else ''Failed to publish post''))
                  else None))"

text \<open>
  The \<open>catch\<close> block. \<open>errorMessage\<close> is the message of an \<open>Error\<close> and a fixed text
  for any other value. An \<open>Error\<close> whose message includes \<open>term_exists\<close> is reported
  as a completed run with a warning, and the block returns early; every other value
  marks the run as failed.
\<close>

fun errorMessage :: "thrown \<Rightarrow> string" where
  "errorMessage (Error m) = m"
| "errorMessage NotAnError = ''Failed to generate content''"

fun is_term_exists :: "thrown \<Rightarrow> bool" where
  "is_term_exists (Error m) = str_includes m ''term_exists''"
| "is_term_exists NotAnError = False"

definition catch_block :: "string \<Rightarrow> string \<Rightarrow> string \<Rightarrow> string \<Rightarrow> thrown \<Rightarrow> effect list" where
  "catch_block scheduleId freq dow tm x =
     (if is_term_exists x then
        [Now (CompletedRun scheduleId freq dow tm
                (''Content generated with a warning: '' @
                 ''A category with this name already exists. The post was still created successfully.'')),
         After 5000 (BackToScheduled scheduleId)]
      else [Now (FailedRun scheduleId (errorMessage x)),
            After 10000 (BackToScheduled scheduleId)])"

text \<open>
  \<open>generateScheduledContent\<close>: the effects of one run, in order. The arguments are
  those of the source, after the two server actions; the four with a default value
  are given by the caller.
\<close>

definition generateScheduledContent ::
  "(string \<Rightarrow> content_params \<Rightarrow> string \<Rightarrow> generation)
     \<Rightarrow> (string \<Rightarrow> string \<Rightarrow> string \<Rightarrow> category list \<Rightarrow> publishing)
     \<Rightarrow> string \<Rightarrow> string \<Rightarrow> string \<Rightarrow> string \<Rightarrow> string \<Rightarrow> bool
     \<Rightarrow> string \<Rightarrow> int \<Rightarrow> string \<Rightarrow> string \<Rightarrow> effect list" where
  "generateScheduledContent generateContentAction publishPostAction
       scheduleId tp freq dow tm auto_publish content_type word_count tn aud =
     Now (Generating scheduleId) #
     (case try_block generateContentAction publishPostAction tp auto_publish
             content_type word_count tn aud of
        None \<Rightarrow>
          [Now (CompletedRun scheduleId freq dow tm
                  (if auto_publish then ''Content generated and published successfully''
                   else ''Content generated and saved as draft'')),
           After 5000 (BackToScheduled scheduleId)]
      | Some x \<Rightarrow> catch_block scheduleId freq dow tm x)"

text \<open>
  The list of schedules when the run ends (all updates made at once, in order) and
  after its timers have fired (then the delayed updates). \<open>clock\<close> is the reading when
  the run ends.
\<close>

fun apply_updates ::
  "int \<Rightarrow> int \<Rightarrow> update list \<Rightarrow> ScheduledPost list \<Rightarrow> error + ScheduledPost list" where
  "apply_updates tza clock [] prev = Inr prev"
| "apply_updates tza clock (u # us) prev =
     (case apply_update tza clock u prev of
        Inl e \<Rightarrow> Inl e
      | Inr updated \<Rightarrow> apply_updates tza clock us updated)"

fun immediate :: "effect list \<Rightarrow> update list" where
  "immediate [] = []"
| "immediate (Now u # es) = u # immediate es"
| "immediate (After d u # es) = immediate es"

fun delayed :: "effect list \<Rightarrow> update list" where
  "delayed [] = []"
| "delayed (Now u # es) = delayed es"
| "delayed (After d u # es) = u # delayed es"

fun delays :: "effect list \<Rightarrow> nat list" where
  "delays [] = []"
| "delays (Now u # es) = delays es"
| "delays (After d u # es) = d # delays es"

definition run_ends ::
  "int \<Rightarrow> int \<Rightarrow> effect list \<Rightarrow> ScheduledPost list \<Rightarrow> error + ScheduledPost list" where
  "run_ends tza clock effects prev = apply_updates tza clock (immediate effects) prev"

definition after_timers ::
  "int \<Rightarrow> int \<Rightarrow> effect list \<Rightarrow> ScheduledPost list \<Rightarrow> error + ScheduledPost list" where
  "after_timers tza clock effects prev =
     apply_updates tza clock (immediate effects @ delayed effects) prev"

subsection \<open>Closed forms used in the proofs\<close>

text \<open>
  The number of days the weekly case adds to a date on weekday \<open>currentDay\<close>, the
  length of a month, and the part of \<open>calculateNextRun\<close> that follows the move to
  tomorrow.
\<close>

definition weekly_days :: "int \<Rightarrow> int \<Rightarrow> int" where
  "weekly_days targetDay currentDay =
     (let a = (targetDay + 7 - currentDay) mod 7 in if a = 0 then 7 else a)"

definition DaysInMonth :: "int \<Rightarrow> int \<Rightarrow> int" where
  "DaysInMonth m leap =
     (if m = 1 then 28 + leap
      else if m = 3 \<or> m = 5 \<or> m = 8 \<or> m = 10 then 30
      else 31)"

definition after_tomorrow :: "int \<Rightarrow> string \<Rightarrow> string option \<Rightarrow> int \<Rightarrow> number" where
  "after_tomorrow tza f dow t1 =
     (if f = ''daily'' then Val t1
      else if f = ''weekly'' then weekly_case tza (Val t1) dow
      else if f = ''biweekly'' then biweekly_case tza (Val t1) dow
      else if f = ''monthly'' then setMonth tza (Val t1) (num_add (getMonth tza (Val t1)) (Val 1))
      else Val t1)"

text \<open>
  A daily schedule that the poller has started at 09:00 local time on 1 January 2024,
  in a zone one hour ahead of UTC; it is used in the examples.
\<close>

definition example_schedule :: ScheduledPost where
  "example_schedule =
     \<lparr>id_post = ''schedule-1'', date = ''2024-01-01'', time = ''09:00'',
      topic = ''Content about wordpress'', status = InProgress,
      frequency = Some ''daily'', dayOfWeek = None, contentType = None, wordCount = None,
      tone = None, audience = None, autoPublish = Some True,
      lastRun = Some (local_instant 3600000 2024 0 1 9 0),
      nextRun = Some (local_instant 3600000 2024 0 1 9 0), result = None\<rparr>"

text \<open>The change a poller tick makes to one schedule.\<close>

definition start_run :: "int \<Rightarrow> ScheduledPost \<Rightarrow> ScheduledPost" where
  "start_run now s = (if is_due now s then s\<lparr>status := InProgress, lastRun := Some now\<rparr> else s)"

text \<open>The time argument is absent, empty or a time of day.\<close>

definition absent_or_time_of_day :: "string option \<Rightarrow> bool" where
  "absent_or_time_of_day tm =
     (case tm of None \<Rightarrow> True | Some s \<Rightarrow> s = [] \<or> is_time_of_day s)"

section \<open>Calendar arithmetic\<close>

text \<open>
  Adding \<open>k\<close> to the date of the month moves a time value by \<open>k\<close> days, and a weekday
  by \<open>k\<close> modulo 7.
\<close>

lemma MonthFromTime_range: "0 \<le> MonthFromTime t \<and> MonthFromTime t \<le> 11"
  by (simp add: MonthFromTime_def Let_def)

lemma MakeDay_same_month:
  "MakeDay (YearFromTime t) (MonthFromTime t) (DateFromTime t + k) = Day t + k"
proof -
  have "MonthFromTime t div 12 = 0" and "MonthFromTime t mod 12 = MonthFromTime t"
    using MonthFromTime_range [of t] by simp_all
  then show ?thesis
    by (simp add: MakeDay_def DateFromTime_def DayWithinYear_def InLeapYear_def)
qed

lemma MakeDate_shift: "MakeDate (Day t + k) (TimeWithinDay t) = t + k * msPerDay"
  by (simp add: MakeDate_def Day_def TimeWithinDay_def algebra_simps)

lemma setDate_getDate:
  "setDate tza (Val t) (num_add (getDate tza (Val t)) (Val k)) = TimeClip (t + k * msPerDay)"
  by (simp add: Let_def MakeDay_same_month MakeDate_shift LocalTime_def UTC_def)

lemma Day_shift: "Day (t + k * msPerDay) = Day t + k"
  by (simp add: Day_def msPerDay_def)

lemma Day_local_shift: "Day (LocalTime tza (t + k * msPerDay)) = Day (LocalTime tza t) + k"
proof -
  have "LocalTime tza (t + k * msPerDay) = LocalTime tza t + k * msPerDay"
    by (simp add: LocalTime_def)
  then show ?thesis by (simp only: Day_shift)
qed

lemma WeekDay_shift: "WeekDay (t + k * msPerDay) = (WeekDay t + k) mod 7"
proof -
  have "WeekDay (t + k * msPerDay) = (Day t + k + 4) mod 7"
    by (simp add: WeekDay_def Day_shift)
  also have "\<dots> = ((Day t + 4) mod 7 + k) mod 7"
    by (simp add: mod_simps ac_simps)
  finally show ?thesis
    by (simp add: WeekDay_def)
qed

lemma WeekDay_range: "0 \<le> WeekDay t \<and> WeekDay t \<le> 6"
  by (simp add: WeekDay_def)

lemma TimeClip_normal:
  assumes "normal_clock tza clock" and "\<bar>t - clock\<bar> \<le> 100 * msPerDay"
  shows "TimeClip t = Val t"
  using assms unfolding TimeClip_def normal_clock_def msPerDay_def by simp arith

text \<open>
  The year computed from the estimate is the year of the standard: the largest year
  whose first day is not after the given day. So the day within the year is inside the
  year, and the date of the month is inside the month.
\<close>

lemma div_succ:
  fixes x n :: int
  assumes "0 < n"
  shows "(x + 1) div n = x div n + (if (x + 1) mod n = 0 then 1 else 0)"
proof (cases "x mod n = n - 1")
  case True
  have "x + 1 = n * (x div n) + (x mod n + 1)"
    by (simp add: algebra_simps)
  also have "\<dots> = n * (x div n) + n"
    by (simp only: True)
  finally have e: "x + 1 = n * (x div n + 1) + 0"
    by (simp add: algebra_simps)
  from assms have "(x + 1) div n = x div n + 1"
    by (rule int_div_pos_eq [OF e order_refl])
  moreover from assms have "(x + 1) mod n = 0"
    by (rule int_mod_pos_eq [OF e order_refl])
  ultimately show ?thesis by simp
next
  case False
  have p: "0 \<le> x mod n" "x mod n < n"
    using assms by simp_all
  with False have r: "0 \<le> x mod n + 1" "x mod n + 1 < n"
    by linarith+
  have e: "x + 1 = n * (x div n) + (x mod n + 1)"
    by (simp add: algebra_simps)
  have "(x + 1) div n = x div n"
    by (rule int_div_pos_eq [OF e r])
  moreover have "(x + 1) mod n = x mod n + 1"
    by (rule int_mod_pos_eq [OF e r])
  ultimately show ?thesis using p by simp
qed

lemma year_length: "DayFromYear (y + 1) - DayFromYear y = DaysInYear y"
proof -
  have m4: "(y - 1969 + 1) mod 4 = y mod 4"
    by (simp add: mod_simps) presburger
  have m100: "(y - 1901 + 1) mod 100 = y mod 100"
    using mod_diff_right_eq [of y 1900 100, symmetric] by simp
  have m400: "(y - 1601 + 1) mod 400 = y mod 400"
    using mod_diff_right_eq [of y 1600 400, symmetric] by simp
  have a: "(y + 1 - 1969) div 4 - (y - 1969) div 4 = (if y mod 4 = 0 then 1 else 0)"
    using div_succ [of 4 "y - 1969"] m4 by (simp add: algebra_simps)
  have b: "(y + 1 - 1901) div 100 - (y - 1901) div 100 = (if y mod 100 = 0 then 1 else 0)"
    using div_succ [of 100 "y - 1901"] m100 by (simp add: algebra_simps)
  have c: "(y + 1 - 1601) div 400 - (y - 1601) div 400 = (if y mod 400 = 0 then 1 else 0)"
    using div_succ [of 400 "y - 1601"] m400 by (simp add: algebra_simps)
  have d: "y mod 400 = 0 \<Longrightarrow> y mod 100 = 0" "y mod 100 = 0 \<Longrightarrow> y mod 4 = 0"
    by (simp_all add: mod_eq_0_iff_dvd) (auto elim: dvd_trans [rotated])
  have "DayFromYear (y + 1) - DayFromYear y =
          365 + ((y + 1 - 1969) div 4 - (y - 1969) div 4)
              - ((y + 1 - 1901) div 100 - (y - 1901) div 100)
              + ((y + 1 - 1601) div 400 - (y - 1601) div 400)"
    by (simp add: DayFromYear_def)
  also have "\<dots> = DaysInYear y"
    unfolding a b c using d by (auto simp: DaysInYear_def)
  finally show ?thesis .
qed

lemma div_bounds:
  fixes x k :: int
  assumes "0 < k"
  shows "k * (x div k) \<le> x" and "x < k * (x div k) + k"
proof -
  have "x = k * (x div k) + x mod k" by simp
  moreover have "0 \<le> x mod k" "x mod k < k" using assms by simp_all
  ultimately show "k * (x div k) \<le> x" and "x < k * (x div k) + k" by linarith+
qed

lemma DayFromYear_bounds:
  shows DayFromYear_lower: "146097 * (y - 1970) - 506 \<le> 400 * DayFromYear y"
    and DayFromYear_upper: "400 * DayFromYear y \<le> 146097 * (y - 1970) + 589"
proof -
  define a where "a = (y - 1969) div 4"
  define b where "b = (y - 1901) div 100"
  define c where "c = (y - 1601) div 400"
  have a: "4 * a \<le> y - 1969" "y - 1969 < 4 * a + 4"
    unfolding a_def by (rule div_bounds, simp)+
  have b: "100 * b \<le> y - 1901" "y - 1901 < 100 * b + 100"
    unfolding b_def by (rule div_bounds, simp)+
  have c: "400 * c \<le> y - 1601" "y - 1601 < 400 * c + 400"
    unfolding c_def by (rule div_bounds, simp)+
  have d: "DayFromYear y = 365 * (y - 1970) + a - b + c"
    by (simp add: DayFromYear_def a_def b_def c_def)
  have l: "100 * (y - 1970) - 200 \<le> 400 * a" "400 * b \<le> 4 * (y - 1970) + 276"
    "y - 1970 - 30 \<le> 400 * c"
    using a(2) b(1) c(2) by simp_all
  have u: "400 * a \<le> 100 * (y - 1970) + 100" "4 * (y - 1970) - 120 \<le> 400 * b"
    "400 * c \<le> y - 1970 + 369"
    using a(1) b(2) c(1) by simp_all
  have e: "400 * DayFromYear y = 146000 * (y - 1970) + 400 * a - 400 * b + 400 * c"
    by (simp add: d)
  show "146097 * (y - 1970) - 506 \<le> 400 * DayFromYear y"
    unfolding e using l by simp
  show "400 * DayFromYear y \<le> 146097 * (y - 1970) + 589"
    unfolding e using u by simp
qed

lemma DayFromYear_mono_step: "DayFromYear y < DayFromYear (y + 1)"
  using year_length [of y] by (simp add: DaysInYear_def split: if_splits)

lemma DayFromYear_mono: "y \<le> z \<Longrightarrow> DayFromYear y \<le> DayFromYear z"
proof (induction z rule: int_ge_induct)
  case base
  show ?case by simp
next
  case (step z)
  with DayFromYear_mono_step [of z] show ?case by simp
qed

lemma YearFromDay_bounds:
  shows YearFromDay_lower: "DayFromYear (YearFromDay d) \<le> d"
    and YearFromDay_upper: "d < DayFromYear (YearFromDay d + 1)"
proof -
  define q where "q = (400 * d) div 146097"
  have e: "146097 * q \<le> 400 * d" "400 * d < 146097 * q + 146097"
    unfolding q_def by (rule div_bounds, simp)+
  have "400 * DayFromYear (1970 + q - 1) \<le> 146097 * (q - 1) + 589"
    using DayFromYear_upper [of "1970 + q - 1"] by simp
  also have "\<dots> \<le> 146097 * q"
    by simp
  also note e(1)
  finally have lo: "DayFromYear (1970 + q - 1) \<le> d"
    by simp
  have "146097 * (q + 2) - 506 \<le> 400 * DayFromYear (1970 + q + 1 + 1)"
    using DayFromYear_lower [of "1970 + q + 1 + 1"] by simp
  moreover have "146097 * q + 146097 \<le> 146097 * (q + 2) - 506"
    by simp
  ultimately have "400 * d < 400 * DayFromYear (1970 + q + 1 + 1)"
    using e(2) by (simp only: order_less_le_trans [OF order_less_le_trans])
  then have hi: "d < DayFromYear (1970 + q + 1 + 1)"
    by simp
  have y: "YearFromDay d =
             (if DayFromYear (1970 + q + 1) \<le> d then 1970 + q + 1
              else if d < DayFromYear (1970 + q) then 1970 + q - 1 else 1970 + q)"
    by (simp add: YearFromDay_def q_def Let_def)
  show "DayFromYear (YearFromDay d) \<le> d"
    unfolding y using lo by simp
  show "d < DayFromYear (YearFromDay d + 1)"
    unfolding y using hi by simp
qed

lemma YearFromDay_largest: "DayFromYear y \<le> d \<longleftrightarrow> y \<le> YearFromDay d"
proof
  assume "DayFromYear y \<le> d"
  show "y \<le> YearFromDay d"
  proof (rule ccontr)
    assume "\<not> y \<le> YearFromDay d"
    then have "YearFromDay d + 1 \<le> y" by simp
    from DayFromYear_mono [OF this] YearFromDay_upper [of d] \<open>DayFromYear y \<le> d\<close>
    show False by simp
  qed
next
  assume "y \<le> YearFromDay d"
  from DayFromYear_mono [OF this] YearFromDay_lower [of d]
  show "DayFromYear y \<le> d" by simp
qed

lemma DayWithinYear_range:
  shows DayWithinYear_lower: "0 \<le> DayWithinYear t"
    and DayWithinYear_upper: "DayWithinYear t < DaysInYear (YearFromTime t)"
proof -
  show "0 \<le> DayWithinYear t"
    using YearFromDay_lower [of "Day t"] by (simp add: DayWithinYear_def YearFromTime_def)
  have "Day t < DayFromYear (YearFromTime t) + DaysInYear (YearFromTime t)"
    using YearFromDay_upper [of "Day t"] year_length [of "YearFromTime t"]
    by (simp add: YearFromTime_def)
  then show "DayWithinYear t < DaysInYear (YearFromTime t)"
    by (simp add: DayWithinYear_def)
qed

lemma DateFromTime_range:
  "1 \<le> DateFromTime t \<and> DateFromTime t \<le> DaysInMonth (MonthFromTime t) (InLeapYear t)"
proof -
  have l: "InLeapYear t = 0 \<or> InLeapYear t = 1"
    by (simp add: InLeapYear_def)
  have y: "DaysInYear (YearFromTime t) = 365 + InLeapYear t"
    by (simp add: InLeapYear_def DaysInYear_def)
  from DayWithinYear_lower [of t] DayWithinYear_upper [of t] y
  have r: "0 \<le> DayWithinYear t" "DayWithinYear t < 365 + InLeapYear t"
    by simp_all
  define d where "d = DayWithinYear t"
  define p where "p = InLeapYear t"
  have m: "MonthFromTime t =
             (if d < 31 then 0 else if d < 59 + p then 1 else if d < 90 + p then 2
              else if d < 120 + p then 3 else if d < 151 + p then 4
              else if d < 181 + p then 5 else if d < 212 + p then 6
              else if d < 243 + p then 7 else if d < 273 + p then 8
              else if d < 304 + p then 9 else if d < 334 + p then 10 else 11)"
    by (simp add: MonthFromTime_def d_def p_def Let_def)
  have e: "DateFromTime t = d - DaysBeforeMonth (MonthFromTime t) p + 1"
    by (simp add: DateFromTime_def d_def p_def)
  from r l have "0 \<le> d" "d < 365 + p" "p = 0 \<or> p = 1"
    by (simp_all add: d_def p_def)
  then show ?thesis
    unfolding e p_def [symmetric] unfolding m
    by (simp add: DaysBeforeMonth_def DaysInMonth_def)
qed

text \<open>Setting the month to the next one moves a time value by the length of its month.\<close>

lemma MakeDay_next_month:
  "MakeDay (YearFromTime t) (MonthFromTime t + 1) (DateFromTime t)
     = Day t + DaysInMonth (MonthFromTime t) (InLeapYear t)"
proof (cases "MonthFromTime t = 11")
  case True
  have "DayFromYear (YearFromTime t + 1) = DayFromYear (YearFromTime t) + DaysInYear (YearFromTime t)"
    using year_length [of "YearFromTime t"] by simp
  moreover have "DaysInYear (YearFromTime t) = 365 + InLeapYear t"
    by (simp add: InLeapYear_def DaysInYear_def)
  ultimately show ?thesis
    using True
    by (simp add: MakeDay_def DateFromTime_def DayWithinYear_def DaysBeforeMonth_def DaysInMonth_def)
next
  case False
  with MonthFromTime_range [of t] have r: "0 \<le> MonthFromTime t" "MonthFromTime t < 11"
    by simp_all
  then have "(MonthFromTime t + 1) div 12 = 0" "(MonthFromTime t + 1) mod 12 = MonthFromTime t + 1"
    by simp_all
  moreover have "DaysBeforeMonth (MonthFromTime t + 1) l =
                   DaysBeforeMonth (MonthFromTime t) l + DaysInMonth (MonthFromTime t) l" for l
    using r by (simp add: DaysBeforeMonth_def DaysInMonth_def) arith
  ultimately show ?thesis
    by (simp add: MakeDay_def DateFromTime_def DayWithinYear_def InLeapYear_def)
qed

lemma DaysInMonth_range: "28 \<le> DaysInMonth (MonthFromTime t) (InLeapYear t) \<and> DaysInMonth (MonthFromTime t) (InLeapYear t) \<le> 31"
  by (simp add: DaysInMonth_def InLeapYear_def)

lemma setMonth_getMonth:
  "setMonth tza (Val t) (num_add (getMonth tza (Val t)) (Val 1)) =
     TimeClip (t + DaysInMonth (MonthFromTime (LocalTime tza t)) (InLeapYear (LocalTime tza t)) * msPerDay)"
  by (simp add: Let_def MakeDay_next_month MakeDate_shift LocalTime_def UTC_def)

section \<open>Times of day and weekday names\<close>

lemma indexOf_days_range: "indexOf days x = -1 \<or> (0 \<le> indexOf days x \<and> indexOf days x \<le> 6)"
  by (simp add: days_def Let_def)

lemma indexOf_days_empty: "indexOf days [] = -1"
  by (simp add: days_def)

lemma digits_nonneg:
  "list_all is_digit s \<Longrightarrow> 0 \<le> a \<Longrightarrow> 0 \<le> foldl (\<lambda>a c. 10 * a + digit_value c) a s"
proof (induction s arbitrary: a)
  case Nil
  then show ?case by simp
next
  case (Cons c s)
  from Cons.prems have "0 \<le> digit_value c"
    by (simp add: is_digit_def digit_value_def Let_def)
  with Cons.prems have "0 \<le> 10 * a + digit_value c" by simp
  with Cons show ?case by simp
qed

lemma Number_of_nonneg: "Number_of s = Val h \<Longrightarrow> 0 \<le> h"
  using digits_nonneg [of s 0] by (auto simp: Number_of_def split: if_splits)

lemma time_of_day_fields:
  assumes "is_time_of_day s"
  obtains h m where "map Number_of (split_colon s) = [Val h, Val m]"
    and "0 \<le> h" and "h < 24" and "0 \<le> m" and "m < 60"
proof -
  from assms obtain h m where hm: "hours_minutes (map Number_of (split_colon s)) = Some (h, m)"
    and b: "h < 24" "m < 60"
    by (auto simp: is_time_of_day_def split: option.splits)
  from hm have f: "map Number_of (split_colon s) = [Val h, Val m]"
    by (rule hours_minutes.elims) simp_all
  from f obtain a b where "split_colon s = [a, b]" "Number_of a = Val h" "Number_of b = Val m"
    by (auto simp: map_eq_Cons_conv)
  then have n: "0 \<le> h" "0 \<le> m" by (auto dest: Number_of_nonneg)
  show ?thesis by (rule that [OF f n(1) b(1) n(2) b(2)])
qed

lemma time_of_day_ms_range:
  assumes "is_time_of_day s"
  shows "0 \<le> time_of_day_ms s \<and> time_of_day_ms s < msPerDay"
proof -
  from assms obtain h m where f: "map Number_of (split_colon s) = [Val h, Val m]"
    and b: "0 \<le> h" "h < 24" "0 \<le> m" "m < 60"
    by (rule time_of_day_fields)
  from b show ?thesis
    by (simp add: time_of_day_ms_def f MakeTime_def msPerHour_def msPerMinute_def msPerDay_def)
qed

lemma time_of_day_nonempty: "is_time_of_day s \<Longrightarrow> s \<noteq> []"
  by (auto simp: is_time_of_day_def Number_of_def)

lemma candidate_time_of_day:
  assumes "is_time_of_day s"
  shows "candidate tza clock (Some s) = TimeClip (today_at tza clock s)"
proof -
  from assms obtain h m where f: "map Number_of (split_colon s) = [Val h, Val m]"
    by (rule time_of_day_fields)
  from assms have "s \<noteq> []" by (rule time_of_day_nonempty)
  then show ?thesis
    by (simp add: candidate_def f today_at_def time_of_day_ms_def numeral_2_eq_2)
qed

lemma today_at_bounds:
  assumes "is_time_of_day s"
  shows "clock - msPerDay < today_at tza clock s" and "today_at tza clock s < clock + msPerDay"
    and "clock < today_at tza clock s + msPerDay"
proof -
  let ?l = "LocalTime tza clock"
  have d: "Day ?l * msPerDay \<le> ?l" "?l < Day ?l * msPerDay + msPerDay"
    by (simp_all add: Day_def msPerDay_def) 
  from time_of_day_ms_range [OF assms] d
  show "clock - msPerDay < today_at tza clock s" and "today_at tza clock s < clock + msPerDay"
    and "clock < today_at tza clock s + msPerDay"
    by (simp_all add: today_at_def UTC_def MakeDate_def LocalTime_def)
qed

lemma Day_today_at:
  assumes "is_time_of_day s"
  shows "Day (LocalTime tza (today_at tza clock s)) = Day (LocalTime tza clock)"
proof -
  have "LocalTime tza (today_at tza clock s) = time_of_day_ms s + Day (LocalTime tza clock) * msPerDay"
    by (simp add: today_at_def UTC_def MakeDate_def LocalTime_def)
  moreover from time_of_day_ms_range [OF assms]
  have "time_of_day_ms s div msPerDay = 0" by simp
  ultimately show ?thesis
    by (simp add: Day_def msPerDay_def)
qed

lemma candidate_today_at:
  assumes "is_time_of_day s" and "normal_clock tza clock"
  shows "candidate tza clock (Some s) = Val (today_at tza clock s)"
proof -
  have "TimeClip (today_at tza clock s) = Val (today_at tza clock s)"
    using today_at_bounds [OF assms(1), where clock=clock and tza=tza]
    by (intro TimeClip_normal [OF assms(2)]) (simp add: msPerDay_def)
  then show ?thesis
    by (simp add: candidate_time_of_day [OF assms(1)])
qed

lemma WeekDay_tomorrow:
  assumes "is_time_of_day s"
  shows "WeekDay (LocalTime tza (today_at tza clock s + msPerDay))
           = (WeekDay (LocalTime tza clock) + 1) mod 7"
proof -
  have "LocalTime tza (today_at tza clock s + msPerDay)
          = LocalTime tza (today_at tza clock s) + 1 * msPerDay"
    by (simp add: LocalTime_def)
  then have "WeekDay (LocalTime tza (today_at tza clock s + msPerDay))
          = (WeekDay (LocalTime tza (today_at tza clock s)) + 1) mod 7"
    by (simp only: WeekDay_shift)
  then show ?thesis
    by (simp add: WeekDay_def Day_today_at [OF assms])
qed

lemma candidate_near_clock:
  assumes "absent_or_time_of_day tm" and "normal_clock tza clock"
  shows "\<exists>c. candidate tza clock tm = Val c \<and> clock - msPerDay < c \<and> c < clock + msPerDay
              \<and> clock < c + msPerDay"
proof (cases "truthy tm")
  case True
  then obtain s where s: "tm = Some s" "s \<noteq> []"
    by (cases tm) auto
  with assms(1) have tod: "is_time_of_day s"
    by (simp add: absent_or_time_of_day_def)
  show ?thesis
    using candidate_today_at [OF tod assms(2)] today_at_bounds [OF tod, where clock=clock and tza=tza]
    by (simp add: s)
next
  case False
  then show ?thesis
    by (simp add: candidate_def msPerDay_def)
qed

section \<open>The next-run calculator\<close>

subsection \<open>The weekly and biweekly cases\<close>

lemma num_rem_7: "1 \<le> a \<Longrightarrow> num_rem (Val a) (Val 7) = Val (a mod 7)"
  by simp

lemma weekly_case_Val:
  assumes "indexOf days (toLowerCase d) = targetDay" and "targetDay \<noteq> -1"
  shows "weekly_case tza (Val t) (Some d) =
           TimeClip (t + weekly_days targetDay (WeekDay (LocalTime tza t)) * msPerDay)"
proof -
  from assms have ne: "d \<noteq> []"
    by (auto simp: toLowerCase_def indexOf_days_empty)
  from assms indexOf_days_range [of "toLowerCase d"] have r: "0 \<le> targetDay"
    by auto
  have "1 \<le> targetDay + 7 - WeekDay (LocalTime tza t)"
    using r WeekDay_range [of "LocalTime tza t"] by linarith
  then have "num_rem (num_sub (Val (targetDay + 7)) (getDay tza (Val t))) (Val 7)
               = Val ((targetDay + 7 - WeekDay (LocalTime tza t)) mod 7)"
    by (simp del: num_rem.simps add: num_rem_7)
  then show ?thesis
    using ne assms
    by (simp add: weekly_case_def Let_def weekly_days_def setDate_getDate del: setDate.simps getDate.simps num_rem.simps)
qed

lemma biweekly_case_Val:
  assumes "indexOf days (toLowerCase d) = targetDay" and "targetDay \<noteq> -1"
  shows "biweekly_case tza (Val t) (Some d) =
           TimeClip (t + (weekly_days targetDay (WeekDay (LocalTime tza t)) + 7) * msPerDay)"
proof -
  from assms have ne: "d \<noteq> []"
    by (auto simp: toLowerCase_def indexOf_days_empty)
  from assms indexOf_days_range [of "toLowerCase d"] have r: "0 \<le> targetDay"
    by auto
  have "1 \<le> targetDay + 7 - WeekDay (LocalTime tza t)"
    using r WeekDay_range [of "LocalTime tza t"] by linarith
  then have "num_rem (num_sub (Val (targetDay + 7)) (getDay tza (Val t))) (Val 7)
               = Val ((targetDay + 7 - WeekDay (LocalTime tza t)) mod 7)"
    by (simp del: num_rem.simps add: num_rem_7)
  then show ?thesis
    using ne assms
    by (simp add: biweekly_case_def Let_def weekly_days_def setDate_getDate del: setDate.simps getDate.simps num_rem.simps)
qed

lemma weekly_days_range: "1 \<le> weekly_days a b \<and> weekly_days a b \<le> 7"
  by (simp add: weekly_days_def Let_def) presburger

lemma weekly_case_other:
  "\<not> truthy dow \<or> indexOf days (toLowerCase (the dow)) = -1 \<Longrightarrow> weekly_case tza n dow = n"
  by (auto simp: weekly_case_def)

lemma biweekly_case_other:
  "\<not> truthy dow \<or> indexOf days (toLowerCase (the dow)) = -1 \<Longrightarrow> biweekly_case tza n dow = n"
  by (auto simp: biweekly_case_def)

lemma same_weekday_weekly_days:
  assumes "0 \<le> w" "w \<le> 6"
  shows "weekly_days w ((w + 1) mod 7) = 6"
  using assms by (simp add: weekly_days_def Let_def) presburger

lemma weekly_days_lands:
  assumes "0 \<le> target" "target \<le> 6" "0 \<le> w" "w \<le> 6"
  shows "(w + weekly_days target w) mod 7 = target"
    and "(w + (weekly_days target w + 7)) mod 7 = target"
proof -
  let ?a = "(target + 7 - w) mod 7"
  have "(w + ?a) mod 7 = (w + (target + 7 - w)) mod 7"
    by (simp only: mod_add_right_eq)
  also have "\<dots> = target"
    using assms by simp
  finally have a: "(w + ?a) mod 7 = target" .
  have z: "target = w" if "?a = 0"
    using a that assms by simp
  show "(w + weekly_days target w) mod 7 = target"
    using a z assms by (auto simp: weekly_days_def Let_def)
  then show "(w + (weekly_days target w + 7)) mod 7 = target"
    by (simp add: add.assoc [symmetric])
qed

subsection \<open>The two paths of the calculator\<close>

text \<open>
  A candidate that is still ahead of the clock is returned as it is, whatever the
  frequency and the day. A candidate that has passed is moved to tomorrow and then
  adjusted by the frequency.
\<close>

lemma calc_ahead:
  assumes "candidate tza clock tm = Val c" and "clock < c"
  shows "calculateNextRun tza clock f dow tm = Inr c"
  using assms by (simp add: calculateNextRun_def)

lemma calc_passed:
  assumes "candidate tza clock tm = Val c" and "c \<le> clock"
    and "TimeClip (c + msPerDay) = Val (c + msPerDay)"
  shows "calculateNextRun tza clock f dow tm =
           toISOString (after_tomorrow tza f dow (c + msPerDay))"
  using assms
  by (simp add: calculateNextRun_def after_tomorrow_def setDate_getDate Let_def
        del: setDate.simps getDate.simps setMonth.simps getMonth.simps)

lemma after_tomorrow_bounds:
  assumes "normal_clock tza clock" and "\<bar>t1 - clock\<bar> \<le> 2 * msPerDay"
  shows "\<exists>r. after_tomorrow tza f dow t1 = Val r \<and> t1 \<le> r \<and> r \<le> t1 + 31 * msPerDay"
proof -
  have clip: "TimeClip (t1 + k * msPerDay) = Val (t1 + k * msPerDay)"
    if "0 \<le> k" "k \<le> 31" for k
  proof (rule TimeClip_normal [OF assms(1)])
    have "0 \<le> k * msPerDay" "k * msPerDay \<le> 31 * msPerDay"
      using that by (simp_all add: msPerDay_def)
    with assms(2) show "\<bar>t1 + k * msPerDay - clock\<bar> \<le> 100 * msPerDay"
      by (simp add: msPerDay_def)
  qed
  have step: "\<exists>r. TimeClip (t1 + k * msPerDay) = Val r \<and> t1 \<le> r \<and> r \<le> t1 + 31 * msPerDay"
    if "0 \<le> k" "k \<le> 31" for k
    using clip [OF that] that by (simp add: msPerDay_def)
  have weekly: "\<exists>r. weekly_case tza (Val t1) dow = Val r \<and> t1 \<le> r \<and> r \<le> t1 + 31 * msPerDay"
  proof (cases "truthy dow \<and> indexOf days (toLowerCase (the dow)) \<noteq> -1")
    case True
    then obtain d where d: "dow = Some d" by (cases dow) auto
    let ?k = "weekly_days (indexOf days (toLowerCase d)) (WeekDay (LocalTime tza t1))"
    have "0 \<le> ?k" "?k \<le> 31"
      using weekly_days_range [of "indexOf days (toLowerCase d)" "WeekDay (LocalTime tza t1)"]
      by simp_all
    then show ?thesis
      using True d weekly_case_Val [OF refl, of d tza t1] step [of ?k] by simp
  next
    case False
    then show ?thesis
      using weekly_case_other [of dow tza "Val t1"] by (auto simp: msPerDay_def)
  qed
  have biweekly: "\<exists>r. biweekly_case tza (Val t1) dow = Val r \<and> t1 \<le> r \<and> r \<le> t1 + 31 * msPerDay"
  proof (cases "truthy dow \<and> indexOf days (toLowerCase (the dow)) \<noteq> -1")
    case True
    then obtain d where d: "dow = Some d" by (cases dow) auto
    let ?k = "weekly_days (indexOf days (toLowerCase d)) (WeekDay (LocalTime tza t1)) + 7"
    have "0 \<le> ?k" "?k \<le> 31"
      using weekly_days_range [of "indexOf days (toLowerCase d)" "WeekDay (LocalTime tza t1)"]
      by simp_all
    then show ?thesis
      using True d biweekly_case_Val [OF refl, of d tza t1] step [of ?k] by simp
  next
    case False
    then show ?thesis
      using biweekly_case_other [of dow tza "Val t1"] by (auto simp: msPerDay_def)
  qed
  have monthly: "\<exists>r. setMonth tza (Val t1) (num_add (getMonth tza (Val t1)) (Val 1)) = Val r
                      \<and> t1 \<le> r \<and> r \<le> t1 + 31 * msPerDay"
    unfolding setMonth_getMonth
    using DaysInMonth_range [of "LocalTime tza t1"] by (intro step) simp_all
  show ?thesis
    using weekly biweekly monthly by (simp add: after_tomorrow_def msPerDay_def)
qed

lemma calculateNextRun_returns:
  assumes "absent_or_time_of_day tm" and "normal_clock tza clock"
  shows "\<exists>r. calculateNextRun tza clock f dow tm = Inr r \<and> clock < r"
proof -
  from candidate_near_clock [OF assms] obtain c where c: "candidate tza clock tm = Val c"
    and b: "clock - msPerDay < c" "c < clock + msPerDay" "clock < c + msPerDay"
    by blast
  show ?thesis
  proof (cases "clock < c")
    case True
    with calc_ahead [OF c True] show ?thesis by simp
  next
    case False
    then have le: "c \<le> clock" by simp
    have clip: "TimeClip (c + msPerDay) = Val (c + msPerDay)"
      using b by (intro TimeClip_normal [OF assms(2)]) (simp add: msPerDay_def)
    have "\<bar>c + msPerDay - clock\<bar> \<le> 2 * msPerDay"
      using b by (simp add: msPerDay_def)
    from after_tomorrow_bounds [OF assms(2) this, of f dow]
    obtain r where "after_tomorrow tza f dow (c + msPerDay) = Val r" "c + msPerDay \<le> r"
      by blast
    with calc_passed [OF c le clip, of f dow] b show ?thesis by simp
  qed
qed

lemma same_weekday:
  assumes "is_time_of_day s" and "normal_clock tza clock"
    and "indexOf days (toLowerCase d) = WeekDay (LocalTime tza clock)"
    and "today_at tza clock s \<le> clock"
  shows "calculateNextRun tza clock ''weekly'' (Some d) (Some s)
           = Inr (today_at tza clock s + 7 * msPerDay)"
    and "calculateNextRun tza clock ''biweekly'' (Some d) (Some s)
           = Inr (today_at tza clock s + 14 * msPerDay)"
proof -
  let ?c = "today_at tza clock s"
  let ?w = "WeekDay (LocalTime tza clock)"
  note b = today_at_bounds [OF assms(1), where clock=clock and tza=tza]
  have c: "candidate tza clock (Some s) = Val ?c"
    by (rule candidate_today_at [OF assms(1,2)])
  have clip: "TimeClip (?c + k * msPerDay) = Val (?c + k * msPerDay)"
    if "0 \<le> k" "k \<le> 14" for k
  proof (rule TimeClip_normal [OF assms(2)])
    have "0 \<le> k * msPerDay" "k * msPerDay \<le> 14 * msPerDay"
      using that by (simp_all add: msPerDay_def)
    with b show "\<bar>?c + k * msPerDay - clock\<bar> \<le> 100 * msPerDay"
      by (simp add: msPerDay_def)
  qed
  have clip1: "TimeClip (?c + msPerDay) = Val (?c + msPerDay)"
    using clip [of 1] by simp
  have w: "?w \<noteq> -1" "0 \<le> ?w" "?w \<le> 6"
    using WeekDay_range [of "LocalTime tza clock"] by simp_all
  have k: "weekly_days ?w (WeekDay (LocalTime tza (?c + msPerDay))) = 6"
    by (simp only: WeekDay_tomorrow [OF assms(1)] same_weekday_weekly_days [OF w(2,3)])
  have "weekly_case tza (Val (?c + msPerDay)) (Some d) = TimeClip (?c + msPerDay + 6 * msPerDay)"
    using weekly_case_Val [OF assms(3) w(1), of tza "?c + msPerDay"] by (simp only: k)
  also have "\<dots> = Val (?c + 7 * msPerDay)"
    using clip [of 7] by (simp add: algebra_simps)
  finally show "calculateNextRun tza clock ''weekly'' (Some d) (Some s) = Inr (?c + 7 * msPerDay)"
    by (simp add: calc_passed [OF c assms(4) clip1] after_tomorrow_def)
  have "biweekly_case tza (Val (?c + msPerDay)) (Some d) = TimeClip (?c + msPerDay + (6 + 7) * msPerDay)"
    using biweekly_case_Val [OF assms(3) w(1), of tza "?c + msPerDay"] by (simp only: k)
  also have "\<dots> = Val (?c + 14 * msPerDay)"
    using clip [of 14] by (simp add: algebra_simps)
  finally show "calculateNextRun tza clock ''biweekly'' (Some d) (Some s) = Inr (?c + 14 * msPerDay)"
    by (simp add: calc_passed [OF c assms(4) clip1] after_tomorrow_def)
qed

lemma weekly_passed_on_target_day:
  assumes "is_time_of_day s" and "normal_clock tza clock"
    and "indexOf days (toLowerCase d) = target" and "target \<noteq> -1"
    and "today_at tza clock s \<le> clock"
    and "f = ''weekly'' \<or> f = ''biweekly''"
  shows "\<exists>r. calculateNextRun tza clock f (Some d) (Some s) = Inr r
           \<and> WeekDay (LocalTime tza r) = target"
proof -
  let ?t1 = "today_at tza clock s + msPerDay"
  let ?w = "WeekDay (LocalTime tza ?t1)"
  let ?k = "weekly_days target ?w"
  note b = today_at_bounds [OF assms(1), where clock=clock and tza=tza]
  have c: "candidate tza clock (Some s) = Val (today_at tza clock s)"
    by (rule candidate_today_at [OF assms(1,2)])
  have clip: "TimeClip (?t1 + k * msPerDay) = Val (?t1 + k * msPerDay)"
    if "0 \<le> k" "k \<le> 14" for k
  proof (rule TimeClip_normal [OF assms(2)])
    have "0 \<le> k * msPerDay" "k * msPerDay \<le> 14 * msPerDay"
      using that by (simp_all add: msPerDay_def)
    with b show "\<bar>?t1 + k * msPerDay - clock\<bar> \<le> 100 * msPerDay"
      by (simp add: msPerDay_def)
  qed
  have clip1: "TimeClip ?t1 = Val ?t1"
    using clip [of 0] by simp
  have tr: "0 \<le> target" "target \<le> 6"
    using assms(3,4) indexOf_days_range [of "toLowerCase d"] by auto
  have kr: "0 \<le> ?k" "?k \<le> 14" "0 \<le> ?k + 7" "?k + 7 \<le> 14"
    using weekly_days_range [of target ?w] by simp_all
  have wd: "WeekDay (LocalTime tza (?t1 + k * msPerDay)) = (?w + k) mod 7" for k
  proof -
    have "LocalTime tza (?t1 + k * msPerDay) = LocalTime tza ?t1 + k * msPerDay"
      by (simp add: LocalTime_def)
    then show ?thesis by (simp only: WeekDay_shift)
  qed
  from assms(6) show ?thesis
  proof
    assume f: "f = ''weekly''"
    have "calculateNextRun tza clock f (Some d) (Some s) = Inr (?t1 + ?k * msPerDay)"
      using weekly_case_Val [OF assms(3,4), of tza ?t1] clip [OF kr(1,2)]
      by (simp add: calc_passed [OF c assms(5) clip1] after_tomorrow_def f)
    moreover have "WeekDay (LocalTime tza (?t1 + ?k * msPerDay)) = target"
      using weekly_days_lands(1) [OF tr, of ?w] WeekDay_range [of "LocalTime tza ?t1"]
      by (simp only: wd)
    ultimately show ?thesis by blast
  next
    assume f: "f = ''biweekly''"
    have "calculateNextRun tza clock f (Some d) (Some s) = Inr (?t1 + (?k + 7) * msPerDay)"
      using biweekly_case_Val [OF assms(3,4), of tza ?t1] clip [OF kr(3,4)]
      by (simp add: calc_passed [OF c assms(5) clip1] after_tomorrow_def f)
    moreover have "WeekDay (LocalTime tza (?t1 + (?k + 7) * msPerDay)) = target"
      using weekly_days_lands(2) [OF tr, of ?w] WeekDay_range [of "LocalTime tza ?t1"]
      by (simp only: wd)
    ultimately show ?thesis by blast
  qed
qed

lemma monthly_passed:
  assumes "is_time_of_day s" and "normal_clock tza clock"
    and "today_at tza clock s \<le> clock"
  shows "calculateNextRun tza clock ''monthly'' dow (Some s)
           = Inr (today_at tza clock s + msPerDay
                  + DaysInMonth (MonthFromTime (LocalTime tza (today_at tza clock s + msPerDay)))
                                (InLeapYear (LocalTime tza (today_at tza clock s + msPerDay)))
                    * msPerDay)"
proof -
  let ?t1 = "today_at tza clock s + msPerDay"
  let ?k = "DaysInMonth (MonthFromTime (LocalTime tza ?t1)) (InLeapYear (LocalTime tza ?t1))"
  note b = today_at_bounds [OF assms(1), where clock=clock and tza=tza]
  have c: "candidate tza clock (Some s) = Val (today_at tza clock s)"
    by (rule candidate_today_at [OF assms(1,2)])
  have clip: "TimeClip (?t1 + k * msPerDay) = Val (?t1 + k * msPerDay)"
    if "0 \<le> k" "k \<le> 31" for k
  proof (rule TimeClip_normal [OF assms(2)])
    have "0 \<le> k * msPerDay" "k * msPerDay \<le> 31 * msPerDay"
      using that by (simp_all add: msPerDay_def)
    with b show "\<bar>?t1 + k * msPerDay - clock\<bar> \<le> 100 * msPerDay"
      by (simp add: msPerDay_def)
  qed
  have clip1: "TimeClip ?t1 = Val ?t1"
    using clip [of 0] by simp
  have "0 \<le> ?k" "?k \<le> 31"
    using DaysInMonth_range [of "LocalTime tza ?t1"] by simp_all
  from clip [OF this] show ?thesis
    by (simp add: calc_passed [OF c assms(3) clip1] after_tomorrow_def setMonth_getMonth
          del: setMonth.simps getMonth.simps)
qed

subsection \<open>The result is after now\<close>

text \<open>
  Claim C1. For every frequency (the four of the form and any other string), every day
  of the week and every time of day, \<open>calculateNextRun\<close> returns a timestamp, and it is
  strictly greater than the clock reading \<open>now\<close>. The clock is read in a zone with a
  constant offset and lies inside the range of dates, less a margin.
\<close>

theorem next_run_after_now:
  assumes "is_time_of_day s" and "normal_clock tza clock"
  shows "\<exists>r. calculateNextRun tza clock f dow (Some s) = Inr r \<and> clock < r"
  using assms by (intro calculateNextRun_returns) (simp add: absent_or_time_of_day_def)

theorem next_run_after_now_witness:
  "is_time_of_day ''09:00'' \<and> normal_clock 3600000 (local_instant 3600000 2024 0 1 10 0) \<and>
   (\<exists>r. calculateNextRun 3600000 (local_instant 3600000 2024 0 1 10 0) ''weekly''
           (Some ''friday'') (Some ''09:00'') = Inr r
        \<and> local_instant 3600000 2024 0 1 10 0 < r)"
proof -
  have h1: "is_time_of_day ''09:00''" by code_simp
  have h2: "normal_clock 3600000 (local_instant 3600000 2024 0 1 10 0)" by code_simp
  from next_run_after_now [OF h1 h2] h1 h2 show ?thesis by blast
qed

subsection \<open>Weekly schedules and the target day\<close>

text \<open>
  Claim C2. The result of a weekly or biweekly schedule falls on the target day of the
  week. The code does this when the candidate has passed (\<open>weekly_passed_on_target_day\<close>),
  and misses the case where the time of day is still ahead: the candidate is returned
  before the day of the week is looked at. On Monday 1 January 2024 at 08:00, a weekly
  schedule for Friday at 09:00 gets the same Monday at 09:00, weekday 1 and not 5.
\<close>

theorem weekly_other_day_ahead:
  "indexOf days (toLowerCase ''friday'') = 5
   \<and> calculateNextRun 3600000 (local_instant 3600000 2024 0 1 8 0) ''weekly''
        (Some ''friday'') (Some ''09:00'') = Inr (local_instant 3600000 2024 0 1 9 0)
   \<and> WeekDay (LocalTime 3600000 (local_instant 3600000 2024 0 1 9 0)) = 1"
  by code_simp

text \<open>
  Claim C3, as amended. For a weekly or biweekly schedule whose target day is the
  current weekday, the result is on the calendar day of \<open>now\<close> exactly when the time of
  day is still ahead: then it is today at that time. When the time of day is at or
  before \<open>now\<close>, the result is on a later calendar day.
\<close>

theorem same_weekday_same_day_iff_ahead:
  assumes "is_time_of_day s" and "normal_clock tza clock"
    and "indexOf days (toLowerCase d) = WeekDay (LocalTime tza clock)"
    and "f = ''weekly'' \<or> f = ''biweekly''"
  shows "\<exists>r. calculateNextRun tza clock f (Some d) (Some s) = Inr r
           \<and> (if clock < today_at tza clock s
               then r = today_at tza clock s \<and> Day (LocalTime tza r) = Day (LocalTime tza clock)
               else Day (LocalTime tza clock) < Day (LocalTime tza r))"
proof (cases "clock < today_at tza clock s")
  case True
  have "calculateNextRun tza clock f (Some d) (Some s) = Inr (today_at tza clock s)"
    by (rule calc_ahead [OF candidate_today_at [OF assms(1,2)] True])
  with True Day_today_at [OF assms(1), of tza clock] show ?thesis by simp
next
  case False
  then have le: "today_at tza clock s \<le> clock" by simp
  have "Day (LocalTime tza (today_at tza clock s + k * msPerDay)) = Day (LocalTime tza clock) + k" for k
    by (simp only: Day_local_shift Day_today_at [OF assms(1)])
  from this [of 7] this [of 14] same_weekday [OF assms(1,2,3) le] assms(4) False
  show ?thesis by auto
qed

text \<open>
  The claim as stated, that the result is never on the day of \<open>now\<close>, fails on a Monday
  at 08:00 for a weekly Monday schedule at 09:00: the result is that Monday at 09:00.
\<close>

theorem same_weekday_counterexample:
  "indexOf days (toLowerCase ''monday'') = WeekDay (LocalTime 3600000 (local_instant 3600000 2024 0 1 8 0))
   \<and> calculateNextRun 3600000 (local_instant 3600000 2024 0 1 8 0) ''weekly'' (Some ''monday'') (Some ''09:00'')
       = Inr (local_instant 3600000 2024 0 1 9 0)
   \<and> Day (LocalTime 3600000 (local_instant 3600000 2024 0 1 9 0))
       = Day (LocalTime 3600000 (local_instant 3600000 2024 0 1 8 0))"
  by code_simp

theorem same_weekday_same_day_iff_ahead_witness:
  "(\<exists>r. calculateNextRun 3600000 (local_instant 3600000 2024 0 1 10 0) ''weekly''
            (Some ''Monday'') (Some ''09:00'') = Inr r
        \<and> Day (LocalTime 3600000 (local_instant 3600000 2024 0 1 10 0)) < Day (LocalTime 3600000 r))
   \<and> (\<exists>r. calculateNextRun 3600000 (local_instant 3600000 2024 0 1 8 0) ''biweekly''
            (Some ''Monday'') (Some ''09:00'') = Inr r
        \<and> r = local_instant 3600000 2024 0 1 9 0)"
proof -
  have h1: "is_time_of_day ''09:00''" by code_simp
  have h2: "normal_clock 3600000 (local_instant 3600000 2024 0 1 10 0)" by code_simp
  have h3: "indexOf days (toLowerCase ''Monday'')
              = WeekDay (LocalTime 3600000 (local_instant 3600000 2024 0 1 10 0))" by code_simp
  have h4: "''weekly'' = ''weekly'' \<or> ''weekly'' = ''biweekly''" by simp
  have h5: "\<not> local_instant 3600000 2024 0 1 10 0
              < today_at 3600000 (local_instant 3600000 2024 0 1 10 0) ''09:00''" by code_simp
  have g2: "normal_clock 3600000 (local_instant 3600000 2024 0 1 8 0)" by code_simp
  have g3: "indexOf days (toLowerCase ''Monday'')
              = WeekDay (LocalTime 3600000 (local_instant 3600000 2024 0 1 8 0))" by code_simp
  have g4: "''biweekly'' = ''weekly'' \<or> ''biweekly'' = ''biweekly''" by simp
  have g5: "local_instant 3600000 2024 0 1 8 0
              < today_at 3600000 (local_instant 3600000 2024 0 1 8 0) ''09:00''" by code_simp
  have g6: "today_at 3600000 (local_instant 3600000 2024 0 1 8 0) ''09:00''
              = local_instant 3600000 2024 0 1 9 0" by code_simp
  from same_weekday_same_day_iff_ahead [OF h1 h2 h3 h4] h5
  have a: "\<exists>r. calculateNextRun 3600000 (local_instant 3600000 2024 0 1 10 0) ''weekly''
            (Some ''Monday'') (Some ''09:00'') = Inr r
        \<and> Day (LocalTime 3600000 (local_instant 3600000 2024 0 1 10 0)) < Day (LocalTime 3600000 r)"
    by (simp only: if_False)
  from same_weekday_same_day_iff_ahead [OF h1 g2 g3 g4] g5
  have b: "\<exists>r. calculateNextRun 3600000 (local_instant 3600000 2024 0 1 8 0) ''biweekly''
            (Some ''Monday'') (Some ''09:00'') = Inr r
        \<and> r = local_instant 3600000 2024 0 1 9 0"
    by (simp only: if_True g6) blast
  from a b show ?thesis by (rule conjI)
qed



subsection \<open>The monthly scenario\<close>

text \<open>
  Claim C5, as amended. For a monthly schedule at 09:00 and \<open>now\<close> = 31 January 2024,
  08:00, the result is 31 January 2024 at 09:00, a valid calendar date later the same
  day: the candidate is still ahead, so no month is added. A month is added to
  tomorrow's date only when the candidate has passed, and a date beyond the end of the
  month runs over into the next one: from 31 January at 10:00 the result is 1 March at
  09:00, from 30 January at 10:00 it is 2 March at 09:00.
\<close>

theorem monthly_scenario:
  "calculateNextRun 3600000 (local_instant 3600000 2024 0 31 8 0) ''monthly'' None (Some ''09:00'')
     = Inr (local_instant 3600000 2024 0 31 9 0)
   \<and> YearFromTime (LocalTime 3600000 (local_instant 3600000 2024 0 31 9 0)) = 2024
   \<and> MonthFromTime (LocalTime 3600000 (local_instant 3600000 2024 0 31 9 0)) = 0
   \<and> DateFromTime (LocalTime 3600000 (local_instant 3600000 2024 0 31 9 0)) = 31
   \<and> calculateNextRun 3600000 (local_instant 3600000 2024 0 31 10 0) ''monthly'' None (Some ''09:00'')
     = Inr (local_instant 3600000 2024 2 1 9 0)
   \<and> calculateNextRun 3600000 (local_instant 3600000 2024 0 30 10 0) ''monthly'' None (Some ''09:00'')
     = Inr (local_instant 3600000 2024 2 2 9 0)"
  by code_simp

text \<open>
  The claim as stated, that the result has advanced by one calendar month, fails: the
  result is on the local day of \<open>now\<close>.
\<close>

theorem monthly_scenario_counterexample:
  "calculateNextRun 3600000 (local_instant 3600000 2024 0 31 8 0) ''monthly'' None (Some ''09:00'')
     = Inr (local_instant 3600000 2024 0 31 9 0)
   \<and> Day (LocalTime 3600000 (local_instant 3600000 2024 0 31 9 0))
       = Day (LocalTime 3600000 (local_instant 3600000 2024 0 31 8 0))"
  by code_simp

subsection \<open>Totality\<close>




section \<open>The poller tick\<close>

text \<open>
  The loop from index \<open>i\<close> starts the due schedules from \<open>i\<close> on and keeps the rest of
  the list.
\<close>

lemma check_loop_from:
  "i \<le> length ys \<Longrightarrow>
   check_loop now i (ys, h, ds) =
     (take i ys @ map (start_run now) (drop i ys),
      h \<or> (\<exists>s \<in> set (drop i ys). is_due now s),
      ds @ filter (is_due now) (drop i ys))"
proof (induction now i "(ys, h, ds)" arbitrary: ys h ds rule: check_loop.induct)
  case (1 now i ys h ds)
  show ?case
  proof (cases "i < length ys")
    case False
    with "1.prems" show ?thesis by (subst check_loop.simps) simp
  next
    case True
    then have d: "drop i ys = ys ! i # drop (Suc i) ys"
      by (simp add: Cons_nth_drop_Suc)
    from True have t: "take (Suc i) ys = take i ys @ [ys ! i]"
      by (simp add: take_Suc_conv_app_nth)
    from True have le: "i + 1 \<le> length ys" by simp
    show ?thesis
    proof (cases "is_due now (ys ! i)")
      case False
      then have skip: "check_loop now i (ys, h, ds) = check_loop now (i + 1) (ys, h, ds)"
        using True by (subst check_loop.simps) (auto simp: is_due_def Let_def split: option.splits)
      from False consider
          (a) "status (ys ! i) \<noteq> Scheduled"
        | (b) "status (ys ! i) = Scheduled" "nextRun (ys ! i) = None"
        | (c) nr where "status (ys ! i) = Scheduled" "nextRun (ys ! i) = Some nr" "\<not> nr \<le> now"
        by (auto simp: is_due_def split: option.splits)
      then have "check_loop now (i + 1) (ys, h, ds) =
          (take (i + 1) ys @ map (start_run now) (drop (i + 1) ys),
           h \<or> (\<exists>s \<in> set (drop (i + 1) ys). is_due now s),
           ds @ filter (is_due now) (drop (i + 1) ys))"
      proof cases
        case a
        then show ?thesis by (intro "1.hyps"(1) [OF True refl _ le]) simp
      next
        case b
        then show ?thesis by (intro "1.hyps"(2) [OF True refl _ _ le]) simp_all
      next
        case c
        then show ?thesis by (intro "1.hyps"(4) [OF True refl _ _ _ le]) simp_all
      qed
      with False show ?thesis
        by (simp add: skip d t start_run_def)
    next
      case due: True
      then obtain nr where nr: "status (ys ! i) = Scheduled" "nextRun (ys ! i) = Some nr" "nr \<le> now"
        by (auto simp: is_due_def split: option.splits)
      let ?ys = "ys[i := (ys ! i)\<lparr>status := InProgress, lastRun := Some now\<rparr>]"
      have step: "check_loop now i (ys, h, ds) = check_loop now (i + 1) (?ys, True, ds @ [ys ! i])"
        using True nr by (subst check_loop.simps) (simp add: Let_def)
      have "check_loop now (i + 1) (?ys, True, ds @ [ys ! i]) =
          (take (i + 1) ?ys @ map (start_run now) (drop (i + 1) ?ys),
           True \<or> (\<exists>s \<in> set (drop (i + 1) ?ys). is_due now s),
           (ds @ [ys ! i]) @ filter (is_due now) (drop (i + 1) ?ys))"
        using True nr le by (intro "1.hyps"(3)) simp_all
      moreover have "take (i + 1) ?ys = take i ys @ [start_run now (ys ! i)]"
        using True due by (simp add: take_Suc_conv_app_nth start_run_def)
      moreover have "drop (i + 1) ?ys = drop (Suc i) ys"
        by simp
      ultimately show ?thesis
        using due by (simp add: step d)
    qed
  qed
qed

lemma checkSchedules_map:
  "checkSchedules now schedules =
     (map (\<lambda>s. if is_due now s then s\<lparr>status := InProgress, lastRun := Some now\<rparr> else s) schedules,
      filter (is_due now) schedules)"
proof -
  have m: "map (start_run now) schedules = schedules" if "\<not> (\<exists>s \<in> set schedules. is_due now s)"
    using that by (induction schedules) (simp_all add: start_run_def)
  have "(\<lambda>s. if is_due now s then s\<lparr>status := InProgress, lastRun := Some now\<rparr> else s) = start_run now"
    by (rule ext) (simp add: start_run_def)
  then show ?thesis
    using check_loop_from [of 0 schedules now False "[]"] m
    by (auto simp: checkSchedules_def)
qed

text \<open>
  Claim C9. One tick at \<open>now\<close> sets a schedule to \<open>in-progress\<close> and stamps
  \<open>lastRun = now\<close> exactly when it is due: its status is \<open>scheduled\<close> and its \<open>nextRun\<close>
  is set and not after \<open>now\<close>. Every other schedule is left as it is. The runs started
  are the due schedules, in the order of the list.
\<close>

theorem poller_tick:
  "checkSchedules now schedules =
     (map (\<lambda>s. if is_due now s then s\<lparr>status := InProgress, lastRun := Some now\<rparr> else s) schedules,
      filter (is_due now) schedules)"
  by (rule checkSchedules_map)

theorem poller_tick_witness:
  "checkSchedules 200
     [example_schedule\<lparr>status := Scheduled, nextRun := Some 100\<rparr>,
      example_schedule\<lparr>status := Scheduled, nextRun := Some 300\<rparr>,
      example_schedule\<lparr>status := Scheduled, nextRun := None\<rparr>,
      example_schedule\<lparr>status := Failed, nextRun := Some 100\<rparr>]
   = ([example_schedule\<lparr>status := InProgress, lastRun := Some 200, nextRun := Some 100\<rparr>,
       example_schedule\<lparr>status := Scheduled, nextRun := Some 300\<rparr>,
       example_schedule\<lparr>status := Scheduled, nextRun := None\<rparr>,
       example_schedule\<lparr>status := Failed, nextRun := Some 100\<rparr>],
      [example_schedule\<lparr>status := Scheduled, nextRun := Some 100\<rparr>])"
  by (simp add: poller_tick is_due_def)

section \<open>The run executor\<close>

lemma complete_all_Inr:
  assumes "calculateNextRun tza clock freq (Some dow) (Some tm) = Inr r"
  shows "complete_all tza clock scheduleId freq dow tm res prev =
           Inr (map (\<lambda>s. if id_post s = scheduleId
                          then s\<lparr>status := Completed, lastRun := Some clock,
                                 nextRun := Some r, result := Some res\<rparr>
                          else s) prev)"
  using assms by (induction prev) simp_all

lemma str_includes_nonempty: "str_includes m p \<Longrightarrow> p \<noteq> [] \<Longrightarrow> m \<noteq> []"
  by (cases m) auto

lemma run_ends_completed:
  assumes "calculateNextRun tza clock freq (Some dow) (Some tm) = Inr r"
  shows "run_ends tza clock
           [Now (Generating scheduleId), Now (CompletedRun scheduleId freq dow tm res),
            After d (BackToScheduled scheduleId)] prev =
         Inr (map (\<lambda>s. if id_post s = scheduleId
                        then s\<lparr>status := Completed, lastRun := Some clock, nextRun := Some r,
                               result := Some res\<rparr>
                        else s) prev)"
  by (simp add: run_ends_def complete_all_Inr [OF assms] comp_def if_distrib cong: if_cong)

lemma after_timers_completed:
  assumes "calculateNextRun tza clock freq (Some dow) (Some tm) = Inr r"
  shows "after_timers tza clock
           [Now (Generating scheduleId), Now (CompletedRun scheduleId freq dow tm res),
            After d (BackToScheduled scheduleId)] prev =
         Inr (map (\<lambda>s. if id_post s = scheduleId
                        then s\<lparr>status := Scheduled, lastRun := Some clock, nextRun := Some r,
                               result := Some res\<rparr>
                        else s) prev)"
  by (simp add: after_timers_def complete_all_Inr [OF assms] comp_def if_distrib cong: if_cong)



lemma success_effects:
  "generateScheduledContent (\<lambda>_ _ _. Generated content cats) (\<lambda>_ _ _ _. Returned True None)
       scheduleId tp freq dow tm ap ct wc tn aud =
     [Now (Generating scheduleId),
      Now (CompletedRun scheduleId freq dow tm
             (if ap then ''Content generated and published successfully''
              else ''Content generated and saved as draft'')),
      After 5000 (BackToScheduled scheduleId)]"
  by (simp add: generateScheduledContent_def try_block_def)

lemma warning_text:
  "str_includes (''Content generated with a warning: '' @
      ''A category with this name already exists. The post was still created successfully.'')
     ''warning''"
  by code_simp

text \<open>
  Claim C6. When generation succeeds and publishing fails with an error whose message
  includes \<open>term_exists\<close> (returned without \<open>success\<close>, or thrown), the run ends with every
  schedule of the run's id in status \<open>completed\<close>, a result that contains a warning,
  \<open>lastRun\<close> the clock reading and \<open>nextRun\<close> the result of \<open>calculateNextRun\<close>. The
  delay of its timer is that of the successful run, and after it the status is
  \<open>scheduled\<close> again.
\<close>

theorem term_collision_soft_success:
  assumes "gen (''Auto-generated: '' @ replace_first tp ''Content about '' [])
             \<lparr>p_contentType = ct, p_wordCount = wc, p_tone = tn, p_audience = aud,
              p_includeImages = False, p_includeFaqs = True\<rparr>
             (replace_first tp ''Content about '' []) = Generated content cats"
    and "pub (''Auto-generated: '' @ replace_first tp ''Content about '' []) content
             (if ap then ''publish'' else ''draft'') cats = outcome"
    and "outcome = Returned False (Some msg) \<or> outcome = PublishThrows (Error msg)"
    and "str_includes msg ''term_exists''"
    and "calculateNextRun tza clock freq (Some dow) (Some tm) = Inr r"
    and "i < length prev" and "id_post (prev ! i) = scheduleId"
  shows "\<exists>ended final w.
           run_ends tza clock
             (generateScheduledContent gen pub scheduleId tp freq dow tm ap ct wc tn aud) prev
             = Inr ended
         \<and> status (ended ! i) = Completed
         \<and> result (ended ! i) = Some w \<and> str_includes w ''warning''
         \<and> lastRun (ended ! i) = Some clock
         \<and> nextRun (ended ! i) = Some r
         \<and> delays (generateScheduledContent gen pub scheduleId tp freq dow tm ap ct wc tn aud)
             = delays (generateScheduledContent (\<lambda>_ _ _. Generated content cats)
                         (\<lambda>_ _ _ _. Returned True None) scheduleId tp freq dow tm ap ct wc tn aud)
         \<and> after_timers tza clock
             (generateScheduledContent gen pub scheduleId tp freq dow tm ap ct wc tn aud) prev
             = Inr final
         \<and> status (final ! i) = Scheduled
         \<and> nextRun (final ! i) = Some r"
proof -
  from assms(4) have "msg \<noteq> []"
    by (rule str_includes_nonempty) simp
  with assms(1,2,3) have "try_block gen pub tp ap ct wc tn aud = Some (Error msg)"
    by (auto simp: try_block_def Let_def)
  then
  have e: "generateScheduledContent gen pub scheduleId tp freq dow tm ap ct wc tn aud =
          [Now (Generating scheduleId),
           Now (CompletedRun scheduleId freq dow tm
                  (''Content generated with a warning: '' @
                   ''A category with this name already exists. The post was still created successfully.'')),
           After 5000 (BackToScheduled scheduleId)]"
    using assms(4) by (simp add: generateScheduledContent_def catch_block_def)
  show ?thesis
    unfolding e success_effects run_ends_completed [OF assms(5)] after_timers_completed [OF assms(5)]
    using assms(6,7) warning_text by simp
qed

theorem term_collision_soft_success_witness:
  "\<exists>ended final w.
     run_ends 3600000 (local_instant 3600000 2024 0 1 9 1)
       (generateScheduledContent (\<lambda>_ _ _. Generated ''<p>Text</p>'' [(''News'', None)])
          (\<lambda>_ _ _ _. Returned False (Some ''Failed to publish post: term_exists''))
          ''schedule-1'' ''Content about wordpress'' ''daily'' [] ''09:00'' True
          ''blog-post'' 1500 ''professional'' ''general'')
       [example_schedule] = Inr ended
     \<and> status (ended ! 0) = Completed
     \<and> result (ended ! 0) = Some w \<and> str_includes w ''warning''
     \<and> lastRun (ended ! 0) = Some (local_instant 3600000 2024 0 1 9 1)
     \<and> nextRun (ended ! 0) = Some (local_instant 3600000 2024 0 2 9 0)
     \<and> delays (generateScheduledContent (\<lambda>_ _ _. Generated ''<p>Text</p>'' [(''News'', None)])
          (\<lambda>_ _ _ _. Returned False (Some ''Failed to publish post: term_exists''))
          ''schedule-1'' ''Content about wordpress'' ''daily'' [] ''09:00'' True
          ''blog-post'' 1500 ''professional'' ''general'')
       = delays (generateScheduledContent (\<lambda>_ _ _. Generated ''<p>Text</p>'' [(''News'', None)])
          (\<lambda>_ _ _ _. Returned True None)
          ''schedule-1'' ''Content about wordpress'' ''daily'' [] ''09:00'' True
          ''blog-post'' 1500 ''professional'' ''general'')
     \<and> after_timers 3600000 (local_instant 3600000 2024 0 1 9 1)
       (generateScheduledContent (\<lambda>_ _ _. Generated ''<p>Text</p>'' [(''News'', None)])
          (\<lambda>_ _ _ _. Returned False (Some ''Failed to publish post: term_exists''))
          ''schedule-1'' ''Content about wordpress'' ''daily'' [] ''09:00'' True
          ''blog-post'' 1500 ''professional'' ''general'')
       [example_schedule] = Inr final
     \<and> status (final ! 0) = Scheduled
     \<and> nextRun (final ! 0) = Some (local_instant 3600000 2024 0 2 9 0)"
proof -
  let ?gen = "\<lambda>(_::string) (_::content_params) (_::string). Generated ''<p>Text</p>'' [(''News'', None)]"
  let ?pub = "\<lambda>(_::string) (_::string) (_::string) (_::category list).
                Returned False (Some ''Failed to publish post: term_exists'')"
  have h1: "?gen (''Auto-generated: '' @ replace_first ''Content about wordpress'' ''Content about '' [])
             \<lparr>p_contentType = ''blog-post'', p_wordCount = 1500, p_tone = ''professional'',
              p_audience = ''general'', p_includeImages = False, p_includeFaqs = True\<rparr>
             (replace_first ''Content about wordpress'' ''Content about '' [])
             = Generated ''<p>Text</p>'' [(''News'', None)]"
    by simp
  have h2: "?pub (''Auto-generated: '' @ replace_first ''Content about wordpress'' ''Content about '' [])
             ''<p>Text</p>'' (if True then ''publish'' else ''draft'') [(''News'', None)]
             = Returned False (Some ''Failed to publish post: term_exists'')"
    by simp
  have h3: "Returned False (Some ''Failed to publish post: term_exists'')
              = Returned False (Some ''Failed to publish post: term_exists'')
            \<or> Returned False (Some ''Failed to publish post: term_exists'')
              = PublishThrows (Error ''Failed to publish post: term_exists'')"
    by simp
  have h4: "str_includes ''Failed to publish post: term_exists'' ''term_exists''"
    by code_simp
  have h5: "calculateNextRun 3600000 (local_instant 3600000 2024 0 1 9 1) ''daily'' (Some [])
              (Some ''09:00'') = Inr (local_instant 3600000 2024 0 2 9 0)"
    by code_simp
  have h6: "0 < length [example_schedule]"
    by simp
  have h7: "id_post ([example_schedule] ! 0) = ''schedule-1''"
    by (simp add: example_schedule_def)
  show ?thesis
    by (rule term_collision_soft_success [where gen = ?gen and pub = ?pub, OF h1 h2 h3 h4 h5 h6 h7])
qed



text \<open>
  Claim C8. A failure of the generation step is a hard failure: the run ends in status
  \<open>failed\<close>. The \<open>catch\<close> block does not tell the two steps apart. When
  \<open>generateContentAction\<close> throws an \<open>Error\<close> whose message includes \<open>term_exists\<close>,
  no post has been created, and the run still ends in status \<open>completed\<close> with the
  text that the post was created.
\<close>

theorem generation_term_exists_completed:
  "map_sum id (map status)
     (run_ends 3600000 (local_instant 3600000 2024 0 1 9 1)
        (generateScheduledContent
           (\<lambda>_ _ _. GenerationThrows (Error ''Failed to generate content: term_exists''))
           (\<lambda>_ _ _ _. Returned True None)
           ''schedule-1'' ''Content about wordpress'' ''daily'' [] ''09:00'' True
           ''blog-post'' 1500 ''professional'' ''general'')
        [example_schedule])
   = Inr [Completed]"
  by code_simp

end
